theory Spec2Isabelle
  imports Main "HOL-Library.Multiset" "HOL-Library.Char_ord" "HOL-Library.List_Lexorder"
    "HOL-Library.Log_Nat" "HOL-Library.Sublist"
begin

section \<open>The relational schema (the pgTable declarations of @shared/schema)\<close>

text \<open>
  Every table of the schema is a record, every pgEnum a datatype. Primary keys are
  varchar ids, timestamps are integers (a point in time), and a decimal(10,2) column
  holds an exact decimal, kept here as an integer number of hundredths. A nullable
  column is an option. Field names carry the table's prefix, since a record field is
  a constant of the theory.
\<close>

type_synonym ident = string
type_synonym timestamp = int
type_synonym decimal = int

datatype userRole = admin | manager | cash_collector
datatype expenseTypeStatus = et_active | et_inactive
datatype taskStatus = t_active | t_inactive | t_completed
datatype receiptBookStatus = rb_active | rb_completed | rb_assigned

record user =
  u_id :: ident
  u_username :: string
  u_password :: string
  u_fullName :: string
  u_role :: userRole
  u_isActive :: bool
  u_createdAt :: timestamp
  u_updatedAt :: timestamp

record task =
  t_id :: ident
  t_name :: string
  t_description :: "string option"
  t_status :: taskStatus
  t_createdBy :: ident
  t_createdAt :: timestamp
  t_updatedAt :: timestamp

record receiptBook =
  rb_id :: ident
  rb_bookNumber :: string
  rb_taskId :: ident
  rb_assignedTo :: "ident option"
  rb_startingReceiptNumber :: int
  rb_endingReceiptNumber :: int
  rb_totalReceipts :: int
  rb_status :: receiptBookStatus
  rb_createdBy :: ident
  rb_createdAt :: timestamp
  rb_updatedAt :: timestamp

record receipt =
  r_id :: ident
  r_receiptNumber :: int
  r_receiptBookId :: ident
  r_taskId :: ident
  r_giverName :: string
  r_address :: string
  r_phoneNumber :: "string option"
  r_amount :: decimal
  r_enteredBy :: ident
  r_createdAt :: timestamp
  r_updatedAt :: timestamp

record expenseType =
  et_id :: ident
  et_name :: string
  et_description :: "string option"
  et_status :: expenseTypeStatus
  et_createdBy :: ident
  et_createdAt :: timestamp
  et_updatedAt :: timestamp

record expense =
  e_id :: ident
  e_expenseTypeId :: ident
  e_amount :: decimal
  e_description :: "string option"
  e_expenseDate :: timestamp
  e_createdBy :: ident
  e_createdAt :: timestamp
  e_updatedAt :: timestamp

record publishedReport =
  pr_id :: ident
  pr_reportData :: string
  pr_publishedBy :: ident
  pr_publishedAt :: timestamp

text \<open>The store: one list of rows per table, in the order the rows were inserted.\<close>

record db =
  users :: "user list"
  tasks :: "task list"
  receiptBooks :: "receiptBook list"
  receipts :: "receipt list"
  expenses :: "expense list"
  expenseTypes :: "expenseType list"
  publishedReports :: "publishedReport list"

datatype table = Users | Tasks | ExpenseTypes | ReceiptBooks | Receipts | Expenses | PublishedReports

text \<open>
  What a storage call can throw: the two \<open>Error\<close>s of \<open>getNextReceiptNumber\<close>, and
  the store's refusal of a statement: a value that does not fit its column, or a row
  that breaks a key constraint of the schema.
\<close>

datatype error =
    ReceiptBookNotFound
  | AllReceiptNumbersUsed
  | OutOfRange table
  | UniqueViolation table
  | ForeignKeyViolation table

section \<open>Storage queries (class DatabaseStorage)\<close>

text \<open>
  \<open>getReceiptBook\<close>: \<open>select ... where id = ?\<close>, the first row or undefined.
  \<open>getReceiptsByBook\<close>: the book's receipts ordered by receipt number.
\<close>

definition getReceiptBook :: "db \<Rightarrow> ident \<Rightarrow> receiptBook option" where
  "getReceiptBook d bid = find (\<lambda>b. rb_id b = bid) (receiptBooks d)"

definition getReceiptsByBook :: "db \<Rightarrow> ident \<Rightarrow> receipt list" where
  "getReceiptsByBook d bid =
     sort_key r_receiptNumber (filter (\<lambda>r. r_receiptBookId r = bid) (receipts d))"

text \<open>
  The loop of \<open>getNextReceiptNumber\<close>:
  \<open>for (num = starting; num <= ending; num++) if (!usedNumbers.includes(num)) return num;\<close>
  followed by the throw once the range is used up.
\<close>

function scanRange :: "int list \<Rightarrow> int \<Rightarrow> int \<Rightarrow> error + int" where
  "scanRange usedNumbers num ending =
     (if num \<le> ending
      then (if num \<notin> set usedNumbers then Inr num
            else scanRange usedNumbers (num + 1) ending)
      else Inl AllReceiptNumbersUsed)"
  by pat_completeness auto
termination
  by (relation "measure (\<lambda>(u, num, ending). nat (ending + 1 - num))") auto

declare scanRange.simps [simp del]

definition getNextReceiptNumber :: "db \<Rightarrow> ident \<Rightarrow> error + int" where
  "getNextReceiptNumber d receiptBookId =
     (case getReceiptBook d receiptBookId of
        None \<Rightarrow> Inl ReceiptBookNotFound
      | Some receiptBook \<Rightarrow>
          (let existingReceipts = getReceiptsByBook d receiptBookId;
               usedNumbers = map r_receiptNumber existingReceipts
           in scanRange usedNumbers (rb_startingReceiptNumber receiptBook)
                (rb_endingReceiptNumber receiptBook)))"

text \<open>The numbers held by the receipts of a book.\<close>

definition usedNumbersOf :: "db \<Rightarrow> ident \<Rightarrow> int set" where
  "usedNumbersOf d bid =
     set (map r_receiptNumber (filter (\<lambda>r. r_receiptBookId r = bid) (receipts d)))"

section \<open>The store's statements (drizzle on PostgreSQL)\<close>

text \<open>
  The schema declares a primary key on every \<open>id\<close>, \<open>unique()\<close> on
  \<open>users.username\<close>, \<open>receipt_books.book_number\<close> and \<open>expense_types.name\<close>, and a
  foreign key for every \<open>references(() => ...)\<close>. The store refuses a statement that
  breaks one of them and leaves the table as it was. A unique index is checked as
  rows are written, a foreign key at the end of the statement, so a unique violation is
  reported first.
\<close>

definition fresh_keys :: "('r \<Rightarrow> 'k) \<Rightarrow> 'r list \<Rightarrow> 'r list \<Rightarrow> bool" where
  "fresh_keys key old rows =
     (distinct (map key rows) \<and> list_all (\<lambda>r. key r \<notin> set (map key old)) rows)"

definition refs_in :: "('r \<Rightarrow> ident) \<Rightarrow> 'r list \<Rightarrow> ident list \<Rightarrow> bool" where
  "refs_in fk rows ids = list_all (\<lambda>r. fk r \<in> set ids) rows"

definition opt_refs_in :: "('r \<Rightarrow> ident option) \<Rightarrow> 'r list \<Rightarrow> ident list \<Rightarrow> bool" where
  "opt_refs_in fk rows ids =
     list_all (\<lambda>r. case fk r of None \<Rightarrow> True | Some i \<Rightarrow> i \<in> set ids) rows"

text \<open>
  An \<open>integer\<close> column holds a 32-bit integer and a \<open>decimal(10,2)\<close> column at most
  eight digits before the point (hundredths up to 9999999999 in size). The store
  refuses a row with a value outside these ranges as it builds the row, before it
  looks at any key.
\<close>

definition int4 :: "int \<Rightarrow> bool" where
  "int4 n \<longleftrightarrow> - 2147483648 \<le> n \<and> n \<le> 2147483647"

definition decimal10_2 :: "decimal \<Rightarrow> bool" where
  "decimal10_2 a \<longleftrightarrow> - 9999999999 \<le> a \<and> a \<le> 9999999999"

definition insertUsers :: "user list \<Rightarrow> db \<Rightarrow> error + db" where
  "insertUsers rows d =
     (if \<not> (fresh_keys u_id (users d) rows \<and> fresh_keys u_username (users d) rows)
      then Inl (UniqueViolation Users)
      else Inr (d\<lparr>users := users d @ rows\<rparr>))"

definition insertTasks :: "task list \<Rightarrow> db \<Rightarrow> error + db" where
  "insertTasks rows d =
     (if \<not> fresh_keys t_id (tasks d) rows then Inl (UniqueViolation Tasks)
      else if \<not> refs_in t_createdBy rows (map u_id (users d))
      then Inl (ForeignKeyViolation Tasks)
      else Inr (d\<lparr>tasks := tasks d @ rows\<rparr>))"

definition insertExpenseTypes :: "expenseType list \<Rightarrow> db \<Rightarrow> error + db" where
  "insertExpenseTypes rows d =
     (if \<not> (fresh_keys et_id (expenseTypes d) rows \<and> fresh_keys et_name (expenseTypes d) rows)
      then Inl (UniqueViolation ExpenseTypes)
      else if \<not> refs_in et_createdBy rows (map u_id (users d))
      then Inl (ForeignKeyViolation ExpenseTypes)
      else Inr (d\<lparr>expenseTypes := expenseTypes d @ rows\<rparr>))"

definition insertReceiptBooks :: "receiptBook list \<Rightarrow> db \<Rightarrow> error + db" where
  "insertReceiptBooks rows d =
     (if \<not> list_all (\<lambda>b. int4 (rb_startingReceiptNumber b) \<and> int4 (rb_endingReceiptNumber b)
                           \<and> int4 (rb_totalReceipts b)) rows
      then Inl (OutOfRange ReceiptBooks)
      else if \<not> (fresh_keys rb_id (receiptBooks d) rows
             \<and> fresh_keys rb_bookNumber (receiptBooks d) rows)
      then Inl (UniqueViolation ReceiptBooks)
      else if \<not> (refs_in rb_taskId rows (map t_id (tasks d))
                  \<and> opt_refs_in rb_assignedTo rows (map u_id (users d))
                  \<and> refs_in rb_createdBy rows (map u_id (users d)))
      then Inl (ForeignKeyViolation ReceiptBooks)
      else Inr (d\<lparr>receiptBooks := receiptBooks d @ rows\<rparr>))"

definition insertReceipts :: "receipt list \<Rightarrow> db \<Rightarrow> error + db" where
  "insertReceipts rows d =
     (if \<not> list_all (\<lambda>r. int4 (r_receiptNumber r) \<and> decimal10_2 (r_amount r)) rows
      then Inl (OutOfRange Receipts)
      else if \<not> fresh_keys r_id (receipts d) rows then Inl (UniqueViolation Receipts)
      else if \<not> (refs_in r_receiptBookId rows (map rb_id (receiptBooks d))
                  \<and> refs_in r_taskId rows (map t_id (tasks d))
                  \<and> refs_in r_enteredBy rows (map u_id (users d)))
      then Inl (ForeignKeyViolation Receipts)
      else Inr (d\<lparr>receipts := receipts d @ rows\<rparr>))"

definition insertExpenses :: "expense list \<Rightarrow> db \<Rightarrow> error + db" where
  "insertExpenses rows d =
     (if \<not> list_all (\<lambda>e. decimal10_2 (e_amount e)) rows then Inl (OutOfRange Expenses)
      else if \<not> fresh_keys e_id (expenses d) rows then Inl (UniqueViolation Expenses)
      else if \<not> (refs_in e_expenseTypeId rows (map et_id (expenseTypes d))
                  \<and> refs_in e_createdBy rows (map u_id (users d)))
      then Inl (ForeignKeyViolation Expenses)
      else Inr (d\<lparr>expenses := expenses d @ rows\<rparr>))"

definition insertPublishedReports :: "publishedReport list \<Rightarrow> db \<Rightarrow> error + db" where
  "insertPublishedReports rows d =
     (if \<not> fresh_keys pr_id (publishedReports d) rows
      then Inl (UniqueViolation PublishedReports)
      else if \<not> refs_in pr_publishedBy rows (map u_id (users d))
      then Inl (ForeignKeyViolation PublishedReports)
      else Inr (d\<lparr>publishedReports := publishedReports d @ rows\<rparr>))"

text \<open>
  \<open>db.delete(t)\<close> removes every row of a table. The foreign keys are declared without
  an \<open>onDelete\<close> action, so the store refuses the delete while a row of another table
  still refers to a row of this one.
\<close>

definition referenced :: "ident list \<Rightarrow> ident list \<Rightarrow> bool" where
  "referenced ids fks = list_ex (\<lambda>k. k \<in> set ids) fks"

definition userRefs :: "db \<Rightarrow> ident list" where
  "userRefs d =
     map t_createdBy (tasks d) @ List.map_filter rb_assignedTo (receiptBooks d)
     @ map rb_createdBy (receiptBooks d) @ map r_enteredBy (receipts d)
     @ map et_createdBy (expenseTypes d) @ map e_createdBy (expenses d)
     @ map pr_publishedBy (publishedReports d)"

fun deleteAll :: "table \<Rightarrow> db \<Rightarrow> error + db" where
  "deleteAll Receipts d = Inr (d\<lparr>receipts := []\<rparr>)"
| "deleteAll Expenses d = Inr (d\<lparr>expenses := []\<rparr>)"
| "deleteAll PublishedReports d = Inr (d\<lparr>publishedReports := []\<rparr>)"
| "deleteAll ReceiptBooks d =
     (if referenced (map rb_id (receiptBooks d)) (map r_receiptBookId (receipts d))
      then Inl (ForeignKeyViolation ReceiptBooks)
      else Inr (d\<lparr>receiptBooks := []\<rparr>))"
| "deleteAll ExpenseTypes d =
     (if referenced (map et_id (expenseTypes d)) (map e_expenseTypeId (expenses d))
      then Inl (ForeignKeyViolation ExpenseTypes)
      else Inr (d\<lparr>expenseTypes := []\<rparr>))"
| "deleteAll Tasks d =
     (if referenced (map t_id (tasks d))
           (map rb_taskId (receiptBooks d) @ map r_taskId (receipts d))
      then Inl (ForeignKeyViolation Tasks)
      else Inr (d\<lparr>tasks := []\<rparr>))"
| "deleteAll Users d =
     (if referenced (map u_id (users d)) (userRefs d)
      then Inl (ForeignKeyViolation Users)
      else Inr (d\<lparr>users := []\<rparr>))"

datatype stmt =
    DeleteFrom table
  | InsertUsers "user list"
  | InsertTasks "task list"
  | InsertExpenseTypes "expenseType list"
  | InsertReceiptBooks "receiptBook list"
  | InsertReceipts "receipt list"
  | InsertExpenses "expense list"
  | InsertPublishedReports "publishedReport list"

fun exec :: "stmt \<Rightarrow> db \<Rightarrow> error + db" where
  "exec (DeleteFrom t) d = deleteAll t d"
| "exec (InsertUsers rows) d = insertUsers rows d"
| "exec (InsertTasks rows) d = insertTasks rows d"
| "exec (InsertExpenseTypes rows) d = insertExpenseTypes rows d"
| "exec (InsertReceiptBooks rows) d = insertReceiptBooks rows d"
| "exec (InsertReceipts rows) d = insertReceipts rows d"
| "exec (InsertExpenses rows) d = insertExpenses rows d"
| "exec (InsertPublishedReports rows) d = insertPublishedReports rows d"

text \<open>
  What a sequence of statements leaves behind: the error thrown, if any, the store,
  and the statements the store executed, in the order in which it executed them.
\<close>

record outcome =
  thrown :: "error option"
  store :: db
  executed :: "stmt list"

text \<open>
  Statements awaited one after the other, outside any transaction: the first statement
  that throws ends the sequence, and what the earlier statements wrote stays written.
\<close>

fun run :: "stmt list \<Rightarrow> db \<Rightarrow> outcome" where
  "run [] d = \<lparr>thrown = None, store = d, executed = []\<rparr>"
| "run (s # ss) d =
     (case exec s d of
        Inl e \<Rightarrow> \<lparr>thrown = Some e, store = d, executed = [s]\<rparr>
      | Inr d' \<Rightarrow>
          (let r = run ss d'
           in \<lparr>thrown = thrown r, store = store r, executed = s # executed r\<rparr>))"

text \<open>
  \<open>await Promise.all([a, b, c])\<close>: the statements are issued together on the pooled
  client, each in a transaction of its own, and the store executes them in an order
  the program does not fix. \<open>promiseAll\<close> takes the statements in the order of their
  execution. Each of them is executed, also after another one has been refused; the
  promise rejects with the first refusal.
\<close>

fun promiseAll :: "stmt list \<Rightarrow> db \<Rightarrow> outcome" where
  "promiseAll [] d = \<lparr>thrown = None, store = d, executed = []\<rparr>"
| "promiseAll (s # ss) d =
     (case exec s d of
        Inl e \<Rightarrow>
          (let r = promiseAll ss d
           in \<lparr>thrown = Some e, store = store r, executed = s # executed r\<rparr>)
      | Inr d' \<Rightarrow>
          (let r = promiseAll ss d'
           in \<lparr>thrown = thrown r, store = store r, executed = s # executed r\<rparr>))"

text \<open>One awaited step after another: the second runs only when the first did not throw.\<close>

definition andThen :: "outcome \<Rightarrow> (db \<Rightarrow> outcome) \<Rightarrow> outcome" where
  "andThen r f =
     (case thrown r of
        Some e \<Rightarrow> r
      | None \<Rightarrow>
          (let r' = f (store r)
           in \<lparr>thrown = thrown r', store = store r', executed = executed r @ executed r'\<rparr>))"

text \<open>
  The order of execution within a \<open>Promise.all\<close> is an argument of the model: \<open>sched\<close>
  maps the array of statements to the order in which the store executes them, and
  \<open>permuting\<close> says that it is an order of those very statements.
\<close>

definition permuting :: "(stmt list \<Rightarrow> stmt list) \<Rightarrow> bool" where
  "permuting sched \<longleftrightarrow> (\<forall>g. mset (sched g) = mset g)"

text \<open>
  Two such orders: the store executes the statements in the order of the array, or in
  the reverse of it.
\<close>

definition inArrayOrder :: "stmt list \<Rightarrow> stmt list" where
  "inArrayOrder g = g"

definition inReverseOrder :: "stmt list \<Rightarrow> stmt list" where
  "inReverseOrder g = rev g"

text \<open>What the caller of a sequence observes: the error thrown and the store.\<close>

definition result :: "outcome \<Rightarrow> error option \<times> db" where
  "result r = (thrown r, store r)"

fun stmt_table :: "stmt \<Rightarrow> table" where
  "stmt_table (DeleteFrom t) = t"
| "stmt_table (InsertUsers rows) = Users"
| "stmt_table (InsertTasks rows) = Tasks"
| "stmt_table (InsertExpenseTypes rows) = ExpenseTypes"
| "stmt_table (InsertReceiptBooks rows) = ReceiptBooks"
| "stmt_table (InsertReceipts rows) = Receipts"
| "stmt_table (InsertExpenses rows) = Expenses"
| "stmt_table (InsertPublishedReports rows) = PublishedReports"

fun is_insert :: "stmt \<Rightarrow> bool" where
  "is_insert (DeleteFrom t) = False"
| "is_insert s = True"

text \<open>The tables a table's foreign keys point to, as the schema declares them.\<close>

fun references :: "table \<Rightarrow> table list" where
  "references Users = []"
| "references Tasks = [Users]"
| "references ExpenseTypes = [Users]"
| "references ReceiptBooks = [Tasks, Users]"
| "references Receipts = [ReceiptBooks, Tasks, Users]"
| "references Expenses = [ExpenseTypes, Users]"
| "references PublishedReports = [Users]"

section \<open>Receipts\<close>

text \<open>
  \<open>InsertReceipt\<close> is the row without \<open>id\<close>, \<open>createdAt\<close> and \<open>updatedAt\<close>; the store
  fills these from \<open>gen_random_uuid()\<close> and \<open>CURRENT_TIMESTAMP\<close>, which the model takes
  as the arguments \<open>newId\<close> and \<open>now\<close>. The amount is the decimal that the store reads
  from the text of the request, in hundredths.
\<close>

record insertReceipt =
  ir_receiptNumber :: int
  ir_receiptBookId :: ident
  ir_taskId :: ident
  ir_giverName :: string
  ir_address :: string
  ir_phoneNumber :: "string option"
  ir_amount :: decimal
  ir_enteredBy :: ident

definition receiptRow :: "insertReceipt \<Rightarrow> ident \<Rightarrow> timestamp \<Rightarrow> receipt" where
  "receiptRow i newId now =
     \<lparr>r_id = newId, r_receiptNumber = ir_receiptNumber i,
      r_receiptBookId = ir_receiptBookId i, r_taskId = ir_taskId i,
      r_giverName = ir_giverName i, r_address = ir_address i,
      r_phoneNumber = ir_phoneNumber i, r_amount = ir_amount i,
      r_enteredBy = ir_enteredBy i, r_createdAt = now, r_updatedAt = now\<rparr>"

definition createReceipt ::
  "insertReceipt \<Rightarrow> ident \<Rightarrow> timestamp \<Rightarrow> db \<Rightarrow> error + (receipt \<times> db)" where
  "createReceipt i newId now d =
     (case exec (InsertReceipts [receiptRow i newId now]) d of
        Inl e \<Rightarrow> Inl e
      | Inr d' \<Rightarrow> Inr (receiptRow i newId now, d'))"

datatype 'a response =
    Status200 'a | Status201 'a | Status400 | Status403 | Status404 | Status500

text \<open>
  \<open>POST /api/receipts\<close> (registerRoutes in server/routes.ts). \<open>body\<close> is what
  \<open>insertReceiptSchema.parse\<close> makes of the request body, \<open>None\<close> when it throws a
  ZodError; \<open>enteredBy\<close> is overwritten with the caller's id. \<open>reqUser\<close> is the user
  the token authenticates.
\<close>

definition postReceipt ::
  "user \<Rightarrow> insertReceipt option \<Rightarrow> ident \<Rightarrow> timestamp \<Rightarrow> db \<Rightarrow> receipt response \<times> db" where
  "postReceipt reqUser body newId now d =
     (case body of
        None \<Rightarrow> (Status400, d)
      | Some b \<Rightarrow>
          (let receiptData = b\<lparr>ir_enteredBy := u_id reqUser\<rparr> in
           if u_role reqUser = cash_collector \<and>
              (case getReceiptBook d (ir_receiptBookId receiptData) of
                 None \<Rightarrow> True
               | Some receiptBook \<Rightarrow> rb_assignedTo receiptBook \<noteq> Some (u_id reqUser))
           then (Status403, d)
           else (case createReceipt receiptData newId now d of
                   Inl e \<Rightarrow> (Status500, d)
                 | Inr (receipt, d') \<Rightarrow> (Status201 receipt, d'))))"

section \<open>Financial calculations\<close>

text \<open>
  SQL aggregates over a column with NULLs: \<open>sum\<close> adds the values that are not NULL and
  is NULL when there is none; \<open>count(col)\<close> counts the values that are not NULL.
\<close>

definition sqlSum :: "decimal option list \<Rightarrow> decimal option" where
  "sqlSum vs =
     (let xs = List.map_filter (\<lambda>v. v) vs in if xs = [] then None else Some (sum_list xs))"

definition sqlCount :: "'a option list \<Rightarrow> nat" where
  "sqlCount vs = length (List.map_filter (\<lambda>v. v) vs)"

text \<open>
  The store returns a decimal sum as text; \<open>Number(total || 0)\<close> turns it into a
  JavaScript number. \<open>num\<close> stands for this conversion and \<open>sub\<close> for the
  subtraction of JavaScript numbers: both are arguments of the queries below, and
  \<open>jsNumber\<close> and \<open>jsSub\<close> at the end of this section are what the program runs with.
\<close>

definition orZero :: "decimal option \<Rightarrow> decimal" where
  "orZero v = (case v of None \<Rightarrow> 0 | Some t \<Rightarrow> t)"

definition getTotalIncome :: "(decimal \<Rightarrow> 'n) \<Rightarrow> db \<Rightarrow> 'n" where
  "getTotalIncome num d = num (orZero (sqlSum (map (\<lambda>r. Some (r_amount r)) (receipts d))))"

definition getTotalExpenses :: "(decimal \<Rightarrow> 'n) \<Rightarrow> db \<Rightarrow> 'n" where
  "getTotalExpenses num d = num (orZero (sqlSum (map (\<lambda>e. Some (e_amount e)) (expenses d))))"

definition getCurrentBalance :: "(decimal \<Rightarrow> 'n) \<Rightarrow> ('n \<Rightarrow> 'n \<Rightarrow> 'n) \<Rightarrow> db \<Rightarrow> 'n" where
  "getCurrentBalance num sub d =
     (let totalIncome = getTotalIncome num d;
          totalExpenses = getTotalExpenses num d
      in sub totalIncome totalExpenses)"

text \<open>
  \<open>a LEFT JOIN b ON c\<close>: every row of \<open>a\<close> with each row of \<open>b\<close> that matches it, or
  with NULLs when none matches.
\<close>

definition leftJoin :: "'a list \<Rightarrow> 'b list \<Rightarrow> ('a \<Rightarrow> 'b \<Rightarrow> bool) \<Rightarrow> ('a \<times> 'b option) list" where
  "leftJoin ls rs on =
     concat (map (\<lambda>l. let ms = filter (on l) rs
                       in if ms = [] then [(l, None)] else map (\<lambda>r. (l, Some r)) ms) ls)"

text \<open>
  A row of the result; the field \<open>total\<close> is \<open>total_sum\<close> here, \<open>total\<close> being
  a constant of HOL.
\<close>

record 'n taskIncome =
  taskId :: ident
  taskName :: string
  total_sum :: 'n
  receiptBookCount :: nat

text \<open>
  \<open>getIncomeByTask\<close>: tasks left-joined with receipts and then with receipt books, both
  on the task id, grouped by task id and name (groups in the order of their first row);
  per group \<open>sum(receipts.amount)\<close> and \<open>count(receiptBooks.id)\<close>.
\<close>

definition incomeJoin :: "db \<Rightarrow> ((task \<times> receipt option) \<times> receiptBook option) list" where
  "incomeJoin d =
     leftJoin (leftJoin (tasks d) (receipts d) (\<lambda>t r. t_id t = r_taskId r))
       (receiptBooks d) (\<lambda>(t, r) b. t_id t = rb_taskId b)"

definition groupKey :: "(task \<times> receipt option) \<times> receiptBook option \<Rightarrow> ident \<times> string" where
  "groupKey row = (t_id (fst (fst row)), t_name (fst (fst row)))"

definition getIncomeByTask :: "(decimal \<Rightarrow> 'n) \<Rightarrow> db \<Rightarrow> 'n taskIncome list" where
  "getIncomeByTask num d =
     (let joined = incomeJoin d in
      map (\<lambda>k. let grp = filter (\<lambda>row. groupKey row = k) joined in
             \<lparr>taskId = fst k, taskName = snd k,
              total_sum = num (orZero (sqlSum (map (\<lambda>row. map_option r_amount (snd (fst row))) grp))),
              receiptBookCount = sqlCount (map (\<lambda>row. map_option rb_id (snd row)) grp)\<rparr>)
        (remdups (map groupKey joined)))"

record 'n ledgerSnapshot =
  totalIncome :: 'n
  totalExpenses :: 'n
  currentBalance :: 'n
  incomeByTask :: "'n taskIncome list"

text \<open>\<open>GET /api/financials\<close>: the four storage calls on one state of the store.\<close>

definition financials :: "(decimal \<Rightarrow> 'n) \<Rightarrow> ('n \<Rightarrow> 'n \<Rightarrow> 'n) \<Rightarrow> db \<Rightarrow> 'n ledgerSnapshot" where
  "financials num sub d =
     \<lparr>totalIncome = getTotalIncome num d, totalExpenses = getTotalExpenses num d,
      currentBalance = getCurrentBalance num sub d, incomeByTask = getIncomeByTask num d\<rparr>"

text \<open>
  JavaScript numbers are IEEE 754 binary64 values. A finite one is the rational it
  denotes (the two zeros are not told apart: no value computed here depends on the
  sign of zero). \<open>toDouble\<close> rounds a rational to the nearest double, ties to the even
  significand: the unit in the last place of \<open>x\<close> is \<open>2\<close> to the power
  \<open>floor (log2 |x|) - 52\<close>, never below \<open>2\<close> to the power \<open>-1074\<close>, and a result of \<open>2\<close> to
  the power \<open>1024\<close> or more is an infinity.
\<close>

datatype jsnum = Finite rat | PosInfinity | NegInfinity | NaN

definition floorLog2 :: "rat \<Rightarrow> int" where
  "floorLog2 x = (if 1 \<le> x then bitlen \<lfloor>x\<rfloor> - 1 else - bitlen (\<lceil>1 / x\<rceil> - 1))"

definition roundHalfEven :: "rat \<Rightarrow> int" where
  "roundHalfEven y =
     (let f = \<lfloor>y\<rfloor>; r = y - of_int f
      in if r < 1 / 2 then f else if 1 / 2 < r then f + 1 else if even f then f else f + 1)"

definition toDouble :: "rat \<Rightarrow> jsnum" where
  "toDouble x =
     (if x = 0 then Finite 0
      else let e = max (floorLog2 \<bar>x\<bar>) (- 1022);
               ulp = 2 powi (e - 52);
               y = of_int (roundHalfEven (\<bar>x\<bar> / ulp)) * ulp
           in if 2 powi 1024 \<le> y then (if 0 < x then PosInfinity else NegInfinity)
              else Finite (sgn x * y))"

text \<open>
  \<open>Number(total || 0)\<close> on the text of a decimal sum (\<open>h\<close> hundredths), and the \<open>-\<close> of two
  numbers: the exact difference of two finite numbers, rounded.
\<close>

definition jsNumber :: "decimal \<Rightarrow> jsnum" where
  "jsNumber h = toDouble (of_int h / 100)"

fun jsSub :: "jsnum \<Rightarrow> jsnum \<Rightarrow> jsnum" where
  "jsSub (Finite a) (Finite b) = toDouble (a - b)"
| "jsSub NaN y = NaN"
| "jsSub x NaN = NaN"
| "jsSub PosInfinity PosInfinity = NaN"
| "jsSub NegInfinity NegInfinity = NaN"
| "jsSub PosInfinity y = PosInfinity"
| "jsSub NegInfinity y = NegInfinity"
| "jsSub x PosInfinity = NegInfinity"
| "jsSub x NegInfinity = PosInfinity"


section \<open>Published reports\<close>

definition getPublishedReports :: "db \<Rightarrow> publishedReport list" where
  "getPublishedReports d = sort_key (\<lambda>p. - pr_publishedAt p) (publishedReports d)"

definition getLatestPublishedReport :: "db \<Rightarrow> publishedReport option" where
  "getLatestPublishedReport d =
     (case take 1 (sort_key (\<lambda>p. - pr_publishedAt p) (publishedReports d)) of
        [] \<Rightarrow> None
      | report # _ \<Rightarrow> Some report)"

record insertPublishedReport =
  ipr_reportData :: string
  ipr_publishedBy :: ident

definition reportRow :: "insertPublishedReport \<Rightarrow> ident \<Rightarrow> timestamp \<Rightarrow> publishedReport" where
  "reportRow i newId now =
     \<lparr>pr_id = newId, pr_reportData = ipr_reportData i,
      pr_publishedBy = ipr_publishedBy i, pr_publishedAt = now\<rparr>"

definition createPublishedReport ::
  "insertPublishedReport \<Rightarrow> ident \<Rightarrow> timestamp \<Rightarrow> db \<Rightarrow> error + (publishedReport \<times> db)" where
  "createPublishedReport i newId now d =
     (case exec (InsertPublishedReports [reportRow i newId now]) d of
        Inl e \<Rightarrow> Inl e
      | Inr d' \<Rightarrow> Inr (reportRow i newId now, d'))"

text \<open>
  \<open>POST /api/reports/publish\<close> stores \<open>JSON.stringify\<close> of the current financials;
  \<open>GET /api/reports/published\<close> answers \<open>JSON.parse\<close> of the latest report's text
  with its \<open>publishedAt\<close>, 404 when there is no report, 500 when the text does not
  parse. \<open>stringify\<close> and \<open>parse\<close> are arguments.
\<close>

definition publishReport ::
  "(decimal \<Rightarrow> 'n) \<Rightarrow> ('n \<Rightarrow> 'n \<Rightarrow> 'n) \<Rightarrow> ('n ledgerSnapshot \<Rightarrow> string) \<Rightarrow> user \<Rightarrow> ident \<Rightarrow> timestamp
     \<Rightarrow> db \<Rightarrow> publishedReport response \<times> db" where
  "publishReport num sub stringify reqUser newId now d =
     (let reportData = financials num sub d in
      case createPublishedReport
             \<lparr>ipr_reportData = stringify reportData, ipr_publishedBy = u_id reqUser\<rparr>
             newId now d of
        Inl e \<Rightarrow> (Status500, d)
      | Inr (publishedReport, d') \<Rightarrow> (Status201 publishedReport, d'))"

definition getPublished :: "(string \<Rightarrow> 'j option) \<Rightarrow> db \<Rightarrow> ('j \<times> timestamp) response" where
  "getPublished parse d =
     (case getLatestPublishedReport d of
        None \<Rightarrow> Status404
      | Some latestReport \<Rightarrow>
          (case parse (pr_reportData latestReport) of
             None \<Rightarrow> Status500
           | Some reportData \<Rightarrow> Status200 (reportData, pr_publishedAt latestReport)))"

section \<open>Backup and restore\<close>

definition getAllUsers :: "db \<Rightarrow> user list" where
  "getAllUsers d = sort_key u_createdAt (users d)"

definition getTasks :: "db \<Rightarrow> task list" where
  "getTasks d = sort_key (\<lambda>t. - t_createdAt t) (tasks d)"

definition getReceiptBooks :: "db \<Rightarrow> receiptBook list" where
  "getReceiptBooks d = sort_key (\<lambda>b. - rb_createdAt b) (receiptBooks d)"

definition getReceipts :: "db \<Rightarrow> receipt list" where
  "getReceipts d = sort_key (\<lambda>r. - r_createdAt r) (receipts d)"

definition getExpenses :: "db \<Rightarrow> expense list" where
  "getExpenses d = sort_key (\<lambda>e. - e_expenseDate e) (expenses d)"

definition getExpenseTypes :: "db \<Rightarrow> expenseType list" where
  "getExpenseTypes d = sort_key et_name (expenseTypes d)"

text \<open>
  The snapshot document: one optional array per collection (\<open>users?: User[]\<close>, ...).
  \<open>rows_of\<close> reads a collection, an absent one as empty.
\<close>

record backupData =
  b_users :: "user list option"
  b_tasks :: "task list option"
  b_receiptBooks :: "receiptBook list option"
  b_receipts :: "receipt list option"
  b_expenses :: "expense list option"
  b_expenseTypes :: "expenseType list option"
  b_publishedReports :: "publishedReport list option"

definition rows_of :: "'a list option \<Rightarrow> 'a list" where
  "rows_of c = (case c of None \<Rightarrow> [] | Some rows \<Rightarrow> rows)"

definition getAllDataForBackup :: "db \<Rightarrow> backupData" where
  "getAllDataForBackup d =
     \<lparr>b_users = Some (getAllUsers d), b_tasks = Some (getTasks d),
      b_receiptBooks = Some (getReceiptBooks d), b_receipts = Some (getReceipts d),
      b_expenses = Some (getExpenses d), b_expenseTypes = Some (getExpenseTypes d),
      b_publishedReports = Some (getPublishedReports d)\<rparr>"

text \<open>\<open>if (backupData.c?.length) await db.insert(t).values(backupData.c)\<close>\<close>

fun ifRows :: "('a list \<Rightarrow> stmt) \<Rightarrow> 'a list option \<Rightarrow> stmt list" where
  "ifRows ins None = []"
| "ifRows ins (Some []) = []"
| "ifRows ins (Some (x # xs)) = [ins (x # xs)]"

definition insertStatements :: "backupData \<Rightarrow> stmt list" where
  "insertStatements backup =
     ifRows InsertUsers (b_users backup)
     @ ifRows InsertTasks (b_tasks backup)
     @ ifRows InsertExpenseTypes (b_expenseTypes backup)
     @ ifRows InsertReceiptBooks (b_receiptBooks backup)
     @ ifRows InsertReceipts (b_receipts backup)
     @ ifRows InsertExpenses (b_expenses backup)
     @ ifRows InsertPublishedReports (b_publishedReports backup)"

text \<open>
  \<open>restoreFromBackup\<close>, in its two parts. "Clear existing data": three awaited
  \<open>Promise.all\<close> groups of deletes. "Restore data": the guarded inserts, awaited one
  after the other. Its \<open>catch\<close> logs and rethrows. The rows are rows as the signature
  types them (\<open>User[]\<close>, \<open>Task[]\<close>, ...).
\<close>

definition clearExistingData :: "(stmt list \<Rightarrow> stmt list) \<Rightarrow> db \<Rightarrow> outcome" where
  "clearExistingData sched d =
     andThen
       (promiseAll
          (sched [DeleteFrom Receipts, DeleteFrom Expenses, DeleteFrom PublishedReports]) d)
       (\<lambda>d1. andThen
          (promiseAll (sched [DeleteFrom ReceiptBooks, DeleteFrom ExpenseTypes]) d1)
          (\<lambda>d2. promiseAll (sched [DeleteFrom Tasks, DeleteFrom Users]) d2))"

definition restoreFromBackup ::
  "(stmt list \<Rightarrow> stmt list) \<Rightarrow> backupData \<Rightarrow> db \<Rightarrow> outcome" where
  "restoreFromBackup sched backup d =
     andThen (clearExistingData sched d) (run (insertStatements backup))"

text \<open>The tables a restore inserts into, in the order in which the store executes the inserts.\<close>

definition insertOrder :: "(stmt list \<Rightarrow> stmt list) \<Rightarrow> backupData \<Rightarrow> db \<Rightarrow> table list" where
  "insertOrder sched backup d =
     map stmt_table (filter is_insert (executed (restoreFromBackup sched backup d)))"

definition hasRows :: "backupData \<Rightarrow> table \<Rightarrow> bool" where
  "hasRows backup t =
     (case t of
        Users \<Rightarrow> rows_of (b_users backup) \<noteq> []
      | Tasks \<Rightarrow> rows_of (b_tasks backup) \<noteq> []
      | ExpenseTypes \<Rightarrow> rows_of (b_expenseTypes backup) \<noteq> []
      | ReceiptBooks \<Rightarrow> rows_of (b_receiptBooks backup) \<noteq> []
      | Receipts \<Rightarrow> rows_of (b_receipts backup) \<noteq> []
      | Expenses \<Rightarrow> rows_of (b_expenses backup) \<noteq> []
      | PublishedReports \<Rightarrow> rows_of (b_publishedReports backup) \<noteq> [])"

definition emptyDb :: db where
  "emptyDb = \<lparr>users = [], tasks = [], receiptBooks = [], receipts = [], expenses = [],
             expenseTypes = [], publishedReports = []\<rparr>"

text \<open>The store holding exactly the rows of a snapshot.\<close>

definition dbOf :: "backupData \<Rightarrow> db" where
  "dbOf backup =
     \<lparr>users = rows_of (b_users backup), tasks = rows_of (b_tasks backup),
      receiptBooks = rows_of (b_receiptBooks backup), receipts = rows_of (b_receipts backup),
      expenses = rows_of (b_expenses backup), expenseTypes = rows_of (b_expenseTypes backup),
      publishedReports = rows_of (b_publishedReports backup)\<rparr>"

text \<open>
  The constraints of the schema as a property of a store: every value fits its
  column, primary keys and unique columns hold no value twice, and every foreign key
  names a row of the table it references. The store keeps this true of every state it
  reaches.
\<close>

definition keys_ok :: "db \<Rightarrow> bool" where
  "keys_ok d \<longleftrightarrow>
     distinct (map u_id (users d)) \<and> distinct (map u_username (users d))
     \<and> distinct (map t_id (tasks d))
     \<and> distinct (map et_id (expenseTypes d)) \<and> distinct (map et_name (expenseTypes d))
     \<and> distinct (map rb_id (receiptBooks d)) \<and> distinct (map rb_bookNumber (receiptBooks d))
     \<and> distinct (map r_id (receipts d))
     \<and> distinct (map e_id (expenses d))
     \<and> distinct (map pr_id (publishedReports d))"

definition refs_ok :: "db \<Rightarrow> bool" where
  "refs_ok d \<longleftrightarrow>
     refs_in t_createdBy (tasks d) (map u_id (users d))
     \<and> refs_in et_createdBy (expenseTypes d) (map u_id (users d))
     \<and> refs_in rb_taskId (receiptBooks d) (map t_id (tasks d))
     \<and> opt_refs_in rb_assignedTo (receiptBooks d) (map u_id (users d))
     \<and> refs_in rb_createdBy (receiptBooks d) (map u_id (users d))
     \<and> refs_in r_receiptBookId (receipts d) (map rb_id (receiptBooks d))
     \<and> refs_in r_taskId (receipts d) (map t_id (tasks d))
     \<and> refs_in r_enteredBy (receipts d) (map u_id (users d))
     \<and> refs_in e_expenseTypeId (expenses d) (map et_id (expenseTypes d))
     \<and> refs_in e_createdBy (expenses d) (map u_id (users d))
     \<and> refs_in pr_publishedBy (publishedReports d) (map u_id (users d))"

definition types_ok :: "db \<Rightarrow> bool" where
  "types_ok d \<longleftrightarrow>
     list_all (\<lambda>b. int4 (rb_startingReceiptNumber b) \<and> int4 (rb_endingReceiptNumber b)
                  \<and> int4 (rb_totalReceipts b)) (receiptBooks d)
     \<and> list_all (\<lambda>r. int4 (r_receiptNumber r) \<and> decimal10_2 (r_amount r)) (receipts d)
     \<and> list_all (\<lambda>e. decimal10_2 (e_amount e)) (expenses d)"

definition db_ok :: "db \<Rightarrow> bool" where
  "db_ok d \<longleftrightarrow> types_ok d \<and> keys_ok d \<and> refs_ok d"

text \<open>A snapshot whose foreign keys all resolve within the snapshot itself.\<close>

definition snapshot_refs_ok :: "backupData \<Rightarrow> bool" where
  "snapshot_refs_ok backup = refs_ok (dbOf backup)"

text \<open>
  Readings of a store after a restore: a table holds no row; every table holds
  either no row or exactly the rows of the snapshot's collection; every table but
  \<open>users\<close> does.
\<close>

definition tableEmpty :: "db \<Rightarrow> table \<Rightarrow> bool" where
  "tableEmpty d t =
     (case t of
        Users \<Rightarrow> users d = []
      | Tasks \<Rightarrow> tasks d = []
      | ExpenseTypes \<Rightarrow> expenseTypes d = []
      | ReceiptBooks \<Rightarrow> receiptBooks d = []
      | Receipts \<Rightarrow> receipts d = []
      | Expenses \<Rightarrow> expenses d = []
      | PublishedReports \<Rightarrow> publishedReports d = [])"

definition partlyRestored :: "backupData \<Rightarrow> db \<Rightarrow> bool" where
  "partlyRestored backup d \<longleftrightarrow>
     users d \<in> {[], rows_of (b_users backup)}
     \<and> tasks d \<in> {[], rows_of (b_tasks backup)}
     \<and> expenseTypes d \<in> {[], rows_of (b_expenseTypes backup)}
     \<and> receiptBooks d \<in> {[], rows_of (b_receiptBooks backup)}
     \<and> receipts d \<in> {[], rows_of (b_receipts backup)}
     \<and> expenses d \<in> {[], rows_of (b_expenses backup)}
     \<and> publishedReports d \<in> {[], rows_of (b_publishedReports backup)}"

definition replacedButUsers :: "backupData \<Rightarrow> db \<Rightarrow> bool" where
  "replacedButUsers backup d \<longleftrightarrow>
     tasks d \<in> {[], rows_of (b_tasks backup)}
     \<and> expenseTypes d \<in> {[], rows_of (b_expenseTypes backup)}
     \<and> receiptBooks d \<in> {[], rows_of (b_receiptBooks backup)}
     \<and> receipts d \<in> {[], rows_of (b_receipts backup)}
     \<and> expenses d \<in> {[], rows_of (b_expenses backup)}
     \<and> publishedReports d \<in> {[], rows_of (b_publishedReports backup)}"

text \<open>
  Three notions for reasoning about a restore: the store executes \<open>delete users\<close>
  before \<open>delete tasks\<close> while a task still names a user; an insert that changes
  nothing when it is given no rows; the seven inserts of a restore with the guards
  removed.
\<close>

definition usersDeleteRefused :: "(stmt list \<Rightarrow> stmt list) \<Rightarrow> db \<Rightarrow> bool" where
  "usersDeleteRefused sched d \<longleftrightarrow>
     sched [DeleteFrom Tasks, DeleteFrom Users] = [DeleteFrom Users, DeleteFrom Tasks]
     \<and> referenced (map u_id (users d)) (map t_createdBy (tasks d))"

definition inert :: "('a list \<Rightarrow> stmt) \<Rightarrow> bool" where
  "inert ins \<longleftrightarrow> (\<forall>d. exec (ins []) d = Inr d)"

definition insertAll :: "backupData \<Rightarrow> stmt list" where
  "insertAll b =
     [InsertUsers (rows_of (b_users b)), InsertTasks (rows_of (b_tasks b)),
      InsertExpenseTypes (rows_of (b_expenseTypes b)),
      InsertReceiptBooks (rows_of (b_receiptBooks b)),
      InsertReceipts (rows_of (b_receipts b)), InsertExpenses (rows_of (b_expenses b)),
      InsertPublishedReports (rows_of (b_publishedReports b))]"

section \<open>Example data\<close>

definition exUser :: user where
  "exUser = \<lparr>u_id = ''u1'', u_username = ''admin'', u_password = ''secret'',
             u_fullName = ''Administrator'', u_role = admin, u_isActive = True,
             u_createdAt = 1, u_updatedAt = 1\<rparr>"

definition exTask :: task where
  "exTask = \<lparr>t_id = ''t1'', t_name = ''Building fund'', t_description = None,
             t_status = t_active, t_createdBy = ''u1'', t_createdAt = 2, t_updatedAt = 2\<rparr>"

definition exBook :: "ident \<Rightarrow> string \<Rightarrow> receiptBook" where
  "exBook i bookNumber =
     \<lparr>rb_id = i, rb_bookNumber = bookNumber, rb_taskId = ''t1'', rb_assignedTo = None,
      rb_startingReceiptNumber = 1, rb_endingReceiptNumber = 3, rb_totalReceipts = 3,
      rb_status = rb_active, rb_createdBy = ''u1'', rb_createdAt = 3, rb_updatedAt = 3\<rparr>"

definition exReceipt :: "ident \<Rightarrow> ident \<Rightarrow> int \<Rightarrow> decimal \<Rightarrow> receipt" where
  "exReceipt i bookId number amount =
     \<lparr>r_id = i, r_receiptNumber = number, r_receiptBookId = bookId, r_taskId = ''t1'',
      r_giverName = ''Donor'', r_address = ''Street 1'', r_phoneNumber = None,
      r_amount = amount, r_enteredBy = ''u1'', r_createdAt = 4, r_updatedAt = 4\<rparr>"

definition exDb :: "receiptBook list \<Rightarrow> receipt list \<Rightarrow> db" where
  "exDb books rs =
     \<lparr>users = [exUser], tasks = [exTask], receiptBooks = books, receipts = rs,
      expenses = [], expenseTypes = [], publishedReports = []\<rparr>"

text \<open>A book with the range 1..3 and receipts entered for 1 and 3, then also for 2.\<close>

definition db13 :: db where
  "db13 = exDb [exBook ''b1'' ''RB-1'']
            [exReceipt ''r1'' ''b1'' 1 10000, exReceipt ''r3'' ''b1'' 3 25050]"

definition db123 :: db where
  "db123 = exDb [exBook ''b1'' ''RB-1'']
             [exReceipt ''r1'' ''b1'' 1 10000, exReceipt ''r3'' ''b1'' 3 25050,
              exReceipt ''r2'' ''b1'' 2 500]"

text \<open>
  Receipts of 100.00 and 250.50 with an expense of 75.25, and a store whose only
  entry is that expense.
\<close>

definition exExpenseType :: expenseType where
  "exExpenseType = \<lparr>et_id = ''et1'', et_name = ''Utilities'', et_description = None,
                    et_status = et_active, et_createdBy = ''u1'',
                    et_createdAt = 5, et_updatedAt = 5\<rparr>"

definition exExpense :: "ident \<Rightarrow> decimal \<Rightarrow> expense" where
  "exExpense i amount =
     \<lparr>e_id = i, e_expenseTypeId = ''et1'', e_amount = amount, e_description = None,
      e_expenseDate = 6, e_createdBy = ''u1'', e_createdAt = 6, e_updatedAt = 6\<rparr>"

definition dbScenario :: db where
  "dbScenario =
     (exDb [exBook ''b1'' ''RB-1'']
        [exReceipt ''r1'' ''b1'' 1 10000, exReceipt ''r2'' ''b1'' 2 25050])
     \<lparr>expenses := [exExpense ''e1'' 7525], expenseTypes := [exExpenseType]\<rparr>"

definition dbDeficit :: db where
  "dbDeficit =
     (exDb [] []) \<lparr>expenses := [exExpense ''e1'' 7525], expenseTypes := [exExpenseType]\<rparr>"

text \<open>A store whose only entries are a receipt of 0.30 and an expense of 0.10.\<close>

definition dbCents :: db where
  "dbCents =
     (exDb [exBook ''b1'' ''RB-1''] [exReceipt ''r1'' ''b1'' 1 30])
     \<lparr>expenses := [exExpense ''e1'' 10], expenseTypes := [exExpenseType]\<rparr>"

text \<open>A store whose only entries are a receipt of 100.00 and an expense of 250.00.\<close>

definition dbOverspent :: db where
  "dbOverspent =
     (exDb [exBook ''b1'' ''RB-1''] [exReceipt ''r1'' ''b1'' 1 10000])
     \<lparr>expenses := [exExpense ''e1'' 25000], expenseTypes := [exExpenseType]\<rparr>"

text \<open>One task with two receipt books and two receipts (100.00 and 50.00).\<close>

definition dbTwoBooks :: db where
  "dbTwoBooks =
     exDb [exBook ''b1'' ''RB-1'', exBook ''b2'' ''RB-2'']
       [exReceipt ''r1'' ''b1'' 1 10000, exReceipt ''r2'' ''b1'' 2 5000]"

text \<open>
  A snapshot whose only receipt names the book \<open>b1\<close>, with no receipt book in the
  snapshot; and the empty object \<open>{}\<close>.
\<close>

definition danglingBackup :: backupData where
  "danglingBackup =
     \<lparr>b_users = Some [exUser], b_tasks = Some [exTask], b_receiptBooks = None,
      b_receipts = Some [exReceipt ''r1'' ''b1'' 1 10000], b_expenses = None,
      b_expenseTypes = None, b_publishedReports = None\<rparr>"

definition emptyBackup :: backupData where
  "emptyBackup =
     \<lparr>b_users = None, b_tasks = None, b_receiptBooks = None, b_receipts = None,
      b_expenses = None, b_expenseTypes = None, b_publishedReports = None\<rparr>"

text \<open>A request for a given number of book \<open>b1\<close>; the handler fills in \<open>enteredBy\<close>.\<close>

definition exRequest :: "int \<Rightarrow> insertReceipt" where
  "exRequest number =
     \<lparr>ir_receiptNumber = number, ir_receiptBookId = ''b1'', ir_taskId = ''t1'',
      ir_giverName = ''Second donor'', ir_address = ''Street 2'', ir_phoneNumber = None,
      ir_amount = 4200, ir_enteredBy = []\<rparr>"

definition exReport :: "ident \<Rightarrow> string \<Rightarrow> timestamp \<Rightarrow> publishedReport" where
  "exReport i reportData publishedAt =
     \<lparr>pr_id = i, pr_reportData = reportData, pr_publishedBy = ''u1'',
      pr_publishedAt = publishedAt\<rparr>"

text \<open>A store with a row in every table, and its export.\<close>

definition dbFull :: db where
  "dbFull = dbScenario\<lparr>publishedReports := [exReport ''p1'' ''{}'' 7]\<rparr>"

text \<open>
  A stand-in for JSON that knows two documents: the financials of \<open>dbFull\<close> in exact
  numbers, written as the text \<open>snapshot\<close>, and a report of zeros, written \<open>{}\<close>.
\<close>

definition exZeroSnapshot :: "int ledgerSnapshot" where
  "exZeroSnapshot =
     \<lparr>totalIncome = 0, totalExpenses = 0, currentBalance = 0, incomeByTask = []\<rparr>"

definition exStringify :: "int ledgerSnapshot \<Rightarrow> string" where
  "exStringify x = ''snapshot''"

definition exParse :: "string \<Rightarrow> int ledgerSnapshot option" where
  "exParse s =
     (if s = ''snapshot'' then Some (financials (\<lambda>x. x) (\<lambda>x y. x - y) dbFull)
      else if s = ''{}'' then Some exZeroSnapshot
      else None)"

text \<open>A user whose id is in no store of the examples.\<close>

definition exStranger :: user where
  "exStranger = exUser\<lparr>u_id := ''u0'', u_username := ''stranger''\<rparr>"

text \<open>
  The store after \<open>exUser\<close> publishes a report on \<open>dbFull\<close> at time 100, and the same
  store once every receipt has been deleted.
\<close>

definition dbPublished :: db where
  "dbPublished =
     snd (publishReport (\<lambda>x. x) (\<lambda>x y. x - y) exStringify exUser ''p2'' 100 dbFull)"

definition dbLater :: db where
  "dbLater = dbPublished\<lparr>receipts := []\<rparr>"

section \<open>The example stores satisfy the constraints of the schema\<close>

lemma db13_ok: "db_ok db13"
  by (simp add: db_ok_def types_ok_def int4_def decimal10_2_def keys_ok_def refs_ok_def refs_in_def opt_refs_in_def db13_def
      exDb_def exUser_def exTask_def exBook_def exReceipt_def)

lemma dbTwoBooks_ok: "db_ok dbTwoBooks"
  by (simp add: db_ok_def types_ok_def int4_def decimal10_2_def keys_ok_def refs_ok_def refs_in_def opt_refs_in_def dbTwoBooks_def
      exDb_def exUser_def exTask_def exBook_def exReceipt_def)

lemma dbFull_ok: "db_ok dbFull"
  by (simp add: db_ok_def types_ok_def int4_def decimal10_2_def keys_ok_def refs_ok_def refs_in_def opt_refs_in_def dbFull_def
      dbScenario_def exDb_def exUser_def exTask_def exBook_def exReceipt_def exExpense_def
      exExpenseType_def exReport_def)

section \<open>Properties of range allocation\<close>

lemma shift_lower:
  fixes s :: int
  assumes "s \<in> U"
  shows "(\<forall>m. s + 1 \<le> m \<and> Q m \<longrightarrow> m \<in> U) \<longleftrightarrow> (\<forall>m. s \<le> m \<and> Q m \<longrightarrow> m \<in> U)"
proof
  assume above: "\<forall>m. s + 1 \<le> m \<and> Q m \<longrightarrow> m \<in> U"
  show "\<forall>m. s \<le> m \<and> Q m \<longrightarrow> m \<in> U"
  proof (intro allI impI)
    fix m
    assume m: "s \<le> m \<and> Q m"
    show "m \<in> U"
    proof (cases "m = s")
      case True
      with assms show ?thesis by simp
    next
      case False
      with m have "s + 1 \<le> m \<and> Q m" by simp
      with above show ?thesis by blast
    qed
  qed
next
  assume from_s: "\<forall>m. s \<le> m \<and> Q m \<longrightarrow> m \<in> U"
  show "\<forall>m. s + 1 \<le> m \<and> Q m \<longrightarrow> m \<in> U"
  proof (intro allI impI)
    fix m
    assume "s + 1 \<le> m \<and> Q m"
    then have "s \<le> m \<and> Q m" by simp
    with from_s show "m \<in> U" by blast
  qed
qed

lemma scanRange_Inr:
  "scanRange u s e = Inr n \<longleftrightarrow>
     s \<le> n \<and> n \<le> e \<and> n \<notin> set u \<and> (\<forall>m. s \<le> m \<and> m < n \<longrightarrow> m \<in> set u)"
proof (induction u s e rule: scanRange.induct)
  case (1 u s e)
  show ?case
  proof (cases "s \<le> e")
    case False
    then show ?thesis
      by (subst scanRange.simps) auto
  next
    case le: True
    show ?thesis
    proof (cases "s \<in> set u")
      case False
      have "scanRange u s e = Inr s"
        using le False by (subst scanRange.simps) simp
      moreover have "(s \<le> n \<and> n \<le> e \<and> n \<notin> set u \<and> (\<forall>m. s \<le> m \<and> m < n \<longrightarrow> m \<in> set u)) \<longleftrightarrow> n = s"
      proof
        assume a: "s \<le> n \<and> n \<le> e \<and> n \<notin> set u \<and> (\<forall>m. s \<le> m \<and> m < n \<longrightarrow> m \<in> set u)"
        show "n = s"
        proof (rule ccontr)
          assume "n \<noteq> s"
          with a have "s \<le> s \<and> s < n" by simp
          with a have "s \<in> set u" by blast
          with False show False by simp
        qed
      next
        assume "n = s"
        with le False show "s \<le> n \<and> n \<le> e \<and> n \<notin> set u \<and> (\<forall>m. s \<le> m \<and> m < n \<longrightarrow> m \<in> set u)"
          by auto
      qed
      ultimately show ?thesis by auto
    next
      case True
      have step: "scanRange u s e = scanRange u (s + 1) e"
        using le True by (subst scanRange.simps) simp
      have ih: "scanRange u (s + 1) e = Inr n \<longleftrightarrow>
          s + 1 \<le> n \<and> n \<le> e \<and> n \<notin> set u \<and> (\<forall>m. s + 1 \<le> m \<and> m < n \<longrightarrow> m \<in> set u)"
        using "1.IH" le True by simp
      have below: "(\<forall>m. s + 1 \<le> m \<and> m < n \<longrightarrow> m \<in> set u) \<longleftrightarrow> (\<forall>m. s \<le> m \<and> m < n \<longrightarrow> m \<in> set u)"
        by (rule shift_lower [OF True])
      have first: "s + 1 \<le> n \<and> n \<notin> set u \<longleftrightarrow> s \<le> n \<and> n \<notin> set u"
        using True by (cases "n = s") auto
      show ?thesis
        unfolding step ih below using first by blast
    qed
  qed
qed

lemma scanRange_Inl:
  "scanRange u s e = Inl err \<longleftrightarrow>
     err = AllReceiptNumbersUsed \<and> (\<forall>m. s \<le> m \<and> m \<le> e \<longrightarrow> m \<in> set u)"
proof (induction u s e rule: scanRange.induct)
  case (1 u s e)
  show ?case
  proof (cases "s \<le> e")
    case False
    then show ?thesis
      by (subst scanRange.simps) auto
  next
    case le: True
    show ?thesis
    proof (cases "s \<in> set u")
      case False
      have "scanRange u s e = Inr s"
        using le False by (subst scanRange.simps) simp
      then show ?thesis using le False by auto
    next
      case True
      have step: "scanRange u s e = scanRange u (s + 1) e"
        using le True by (subst scanRange.simps) simp
      have ih: "scanRange u (s + 1) e = Inl err \<longleftrightarrow>
          err = AllReceiptNumbersUsed \<and> (\<forall>m. s + 1 \<le> m \<and> m \<le> e \<longrightarrow> m \<in> set u)"
        using "1.IH" le True by simp
      have "(\<forall>m. s + 1 \<le> m \<and> m \<le> e \<longrightarrow> m \<in> set u) \<longleftrightarrow> (\<forall>m. s \<le> m \<and> m \<le> e \<longrightarrow> m \<in> set u)"
        by (rule shift_lower [OF True])
      then show ?thesis using step ih by simp
    qed
  qed
qed

lemma usedNumbers_set:
  "r_receiptNumber ` set (getReceiptsByBook d bid) = usedNumbersOf d bid"
  by (simp add: getReceiptsByBook_def usedNumbersOf_def)

text \<open>
  C1. For a receipt book with the range [starting, ending], \<open>getNextReceiptNumber\<close>
  returns \<open>n\<close> exactly when \<open>n\<close> is the smallest number of the range that no
  receipt of the book holds, and it throws "All receipt numbers in this book have been
  used" exactly when every number of the range is held (no other error is possible
  once the book exists).
\<close>

theorem getNextReceiptNumber_lowest_free:
  assumes "getReceiptBook d bid = Some book"
  shows "(getNextReceiptNumber d bid = Inr n \<longleftrightarrow>
            rb_startingReceiptNumber book \<le> n \<and> n \<le> rb_endingReceiptNumber book
            \<and> n \<notin> usedNumbersOf d bid
            \<and> (\<forall>m. rb_startingReceiptNumber book \<le> m \<and> m < n \<longrightarrow> m \<in> usedNumbersOf d bid))
       \<and> (getNextReceiptNumber d bid = Inl err \<longleftrightarrow>
            err = AllReceiptNumbersUsed
            \<and> (\<forall>m. rb_startingReceiptNumber book \<le> m \<and> m \<le> rb_endingReceiptNumber book
                   \<longrightarrow> m \<in> usedNumbersOf d bid))"
  using assms
  by (simp add: getNextReceiptNumber_def Let_def scanRange_Inr scanRange_Inl usedNumbers_set)

lemma ex_book13: "getReceiptBook db13 ''b1'' = Some (exBook ''b1'' ''RB-1'')"
  by (simp add: getReceiptBook_def db13_def exDb_def exBook_def)

lemma ex_book123: "getReceiptBook db123 ''b1'' = Some (exBook ''b1'' ''RB-1'')"
  by (simp add: getReceiptBook_def db123_def exDb_def exBook_def)

lemma ex_used13: "usedNumbersOf db13 ''b1'' = {1, 3}"
  by (simp add: usedNumbersOf_def db13_def exDb_def exReceipt_def)

lemma ex_used123: "usedNumbersOf db123 ''b1'' = {1, 2, 3}"
  by (auto simp add: usedNumbersOf_def db123_def exDb_def exReceipt_def)

text \<open>
  The scenario of the specification: range 1..3 with 1 and 3 used gives 2; with 1, 2
  and 3 used the allocation fails.
\<close>

theorem getNextReceiptNumber_lowest_free_witness:
  "getReceiptBook db13 ''b1'' = Some (exBook ''b1'' ''RB-1'')
   \<and> getNextReceiptNumber db13 ''b1'' = Inr 2
   \<and> getNextReceiptNumber db123 ''b1'' = Inl AllReceiptNumbersUsed"
proof -
  have a: "getNextReceiptNumber db13 ''b1'' = Inr 2"
    using getNextReceiptNumber_lowest_free [OF ex_book13, of 2 AllReceiptNumbersUsed]
    by (auto simp add: ex_used13 exBook_def)
  have b: "getNextReceiptNumber db123 ''b1'' = Inl AllReceiptNumbersUsed"
    using getNextReceiptNumber_lowest_free [OF ex_book123, of 2 AllReceiptNumbersUsed]
    by (auto simp add: ex_used123 exBook_def)
  show ?thesis using a b ex_book13 by simp
qed

section \<open>Explicit receipt numbers\<close>

lemma getReceiptBook_Some_id:
  "getReceiptBook d bid = Some book \<Longrightarrow> bid \<in> set (map rb_id (receiptBooks d))"
  by (auto simp add: getReceiptBook_def find_Some_iff)

lemma createReceipt_ok:
  assumes "newId \<notin> set (map r_id (receipts d))"
    and "ir_receiptBookId i \<in> set (map rb_id (receiptBooks d))"
    and "ir_taskId i \<in> set (map t_id (tasks d))"
    and "ir_enteredBy i \<in> set (map u_id (users d))"
  shows "createReceipt i newId now d =
           (if int4 (ir_receiptNumber i) \<and> decimal10_2 (ir_amount i)
            then Inr (receiptRow i newId now, d\<lparr>receipts := receipts d @ [receiptRow i newId now]\<rparr>)
            else Inl (OutOfRange Receipts))"
  using assms
  by (simp add: createReceipt_def insertReceipts_def fresh_keys_def refs_in_def receiptRow_def)

lemma getReceiptBook_int4:
  assumes "db_ok d" and "getReceiptBook d bid = Some book"
  shows "int4 (rb_startingReceiptNumber book) \<and> int4 (rb_endingReceiptNumber book)"
proof -
  have "book \<in> set (receiptBooks d)"
    using assms(2) by (auto simp add: getReceiptBook_def find_Some_iff)
  then show ?thesis
    using assms(1) by (simp add: db_ok_def types_ok_def list_all_iff)
qed

text \<open>
  C2 (amended). \<open>POST /api/receipts\<close> makes no check of the supplied receipt number
  against the numbers the book's receipts already hold, and the schema has no unique
  constraint on (book, number). In a store that satisfies the constraints of the
  schema, a request for a number inside the book's range, from a caller who passes
  the collector check, with a fresh id and an existing task and user, is answered 201
  and the receipt is stored with exactly the supplied number, whether or not a
  receipt of the book already holds that number, provided the amount fits the
  \<open>decimal(10,2)\<close> column; otherwise the store refuses the row, the request is answered
  500 and nothing is stored.
\<close>

theorem postReceipt_no_duplicate_check:
  assumes ok: "db_ok d"
    and book: "getReceiptBook d (ir_receiptBookId b) = Some book"
    and range: "rb_startingReceiptNumber book \<le> ir_receiptNumber b
                \<and> ir_receiptNumber b \<le> rb_endingReceiptNumber book"
    and role: "u_role reqUser = cash_collector \<longrightarrow> rb_assignedTo book = Some (u_id reqUser)"
    and fresh: "newId \<notin> set (map r_id (receipts d))"
    and task: "ir_taskId b \<in> set (map t_id (tasks d))"
    and user: "u_id reqUser \<in> set (map u_id (users d))"
  shows "postReceipt reqUser (Some b) newId now d =
           (if decimal10_2 (ir_amount b)
            then (Status201 (receiptRow (b\<lparr>ir_enteredBy := u_id reqUser\<rparr>) newId now),
                  d\<lparr>receipts := receipts d
                       @ [receiptRow (b\<lparr>ir_enteredBy := u_id reqUser\<rparr>) newId now]\<rparr>)
            else (Status500, d))
         \<and> r_receiptNumber (receiptRow (b\<lparr>ir_enteredBy := u_id reqUser\<rparr>) newId now)
             = ir_receiptNumber b"
proof -
  let ?data = "b\<lparr>ir_enteredBy := u_id reqUser\<rparr>"
  have fits: "int4 (ir_receiptNumber b)"
    using getReceiptBook_int4 [OF ok book] range by (simp add: int4_def)
  have "createReceipt ?data newId now d =
          (if int4 (ir_receiptNumber ?data) \<and> decimal10_2 (ir_amount ?data)
           then Inr (receiptRow ?data newId now,
                     d\<lparr>receipts := receipts d @ [receiptRow ?data newId now]\<rparr>)
           else Inl (OutOfRange Receipts))"
    using fresh task user getReceiptBook_Some_id [OF book]
    by (intro createReceipt_ok) simp_all
  then show ?thesis
    using book role fits by (auto simp add: postReceipt_def Let_def receiptRow_def)
qed

text \<open>
  The number 3 of book \<open>b1\<close> is already used, and a second receipt 3 is created; the
  same request with the amount 100000000.00 is answered 500.
\<close>

theorem postReceipt_no_duplicate_check_witness:
  "db_ok db13
   \<and> 3 \<in> usedNumbersOf db13 ''b1''
   \<and> postReceipt exUser (Some (exRequest 3)) ''r9'' 9 db13 =
       (Status201 (receiptRow ((exRequest 3)\<lparr>ir_enteredBy := ''u1''\<rparr>) ''r9'' 9),
        db13\<lparr>receipts := receipts db13 @ [receiptRow ((exRequest 3)\<lparr>ir_enteredBy := ''u1''\<rparr>) ''r9'' 9]\<rparr>)
   \<and> postReceipt exUser (Some ((exRequest 3)\<lparr>ir_amount := 10000000000\<rparr>)) ''r9'' 9 db13 =
       (Status500, db13)"
proof -
  have book: "getReceiptBook db13 (ir_receiptBookId (exRequest 3)) = Some (exBook ''b1'' ''RB-1'')"
    "getReceiptBook db13 (ir_receiptBookId ((exRequest 3)\<lparr>ir_amount := 10000000000\<rparr>))
       = Some (exBook ''b1'' ''RB-1'')"
    by (simp_all add: getReceiptBook_def db13_def exDb_def exBook_def exRequest_def)
  have "postReceipt exUser (Some (exRequest 3)) ''r9'' 9 db13 =
       (Status201 (receiptRow ((exRequest 3)\<lparr>ir_enteredBy := u_id exUser\<rparr>) ''r9'' 9),
        db13\<lparr>receipts := receipts db13 @ [receiptRow ((exRequest 3)\<lparr>ir_enteredBy := u_id exUser\<rparr>) ''r9'' 9]\<rparr>)"
    using postReceipt_no_duplicate_check [OF db13_ok book(1), of exUser "''r9''" 9]
    by (simp add: exRequest_def exBook_def exUser_def db13_def exDb_def exReceipt_def exTask_def
        decimal10_2_def)
  moreover have "postReceipt exUser (Some ((exRequest 3)\<lparr>ir_amount := 10000000000\<rparr>)) ''r9'' 9 db13 =
       (Status500, db13)"
    using postReceipt_no_duplicate_check [OF db13_ok book(2), of exUser "''r9''" 9]
    by (simp add: exRequest_def exBook_def exUser_def db13_def exDb_def exReceipt_def exTask_def
        decimal10_2_def)
  ultimately show ?thesis
    using db13_ok by (simp add: ex_used13 exUser_def)
qed

text \<open>
  C2 as stated fails: with receipts 1 and 3 in a book of range 1..3, a request for the
  used number 3 is answered 201 and the book then holds the numbers 1, 3, 3; a request
  for the number 7, outside the range, is answered 201 as well.
\<close>

theorem postReceipt_duplicate_counterexample:
  "db_ok db13
   \<and> fst (postReceipt exUser (Some (exRequest 3)) ''r9'' 9 db13)
     = Status201 (exReceipt ''r9'' ''b1'' 3 4200
                    \<lparr>r_giverName := ''Second donor'', r_address := ''Street 2'',
                     r_createdAt := 9, r_updatedAt := 9\<rparr>)
   \<and> map r_receiptNumber
        (filter (\<lambda>r. r_receiptBookId r = ''b1'') (receipts (snd (postReceipt exUser (Some (exRequest 3)) ''r9'' 9 db13))))
     = [1, 3, 3]
   \<and> fst (postReceipt exUser (Some (exRequest 7)) ''r9'' 9 db13)
     = Status201 (exReceipt ''r9'' ''b1'' 7 4200
                    \<lparr>r_giverName := ''Second donor'', r_address := ''Street 2'',
                     r_createdAt := 9, r_updatedAt := 9\<rparr>)"
  using db13_ok
  by (simp add: postReceipt_def createReceipt_def insertReceipts_def fresh_keys_def refs_in_def
      receiptRow_def getReceiptBook_def exRequest_def exBook_def exUser_def db13_def exDb_def
      exReceipt_def exTask_def Let_def int4_def decimal10_2_def)

section \<open>Financial totals\<close>

lemma map_filter_Some: "List.map_filter (\<lambda>v. v) (map (\<lambda>x. Some (f x)) xs) = map f xs"
  by (induction xs) (simp_all add: List.map_filter_simps)

lemma sqlSum_all_Some: "orZero (sqlSum (map (\<lambda>x. Some (f x)) xs)) = sum_list (map f xs)"
  by (simp add: sqlSum_def orZero_def map_filter_Some Let_def)

lemma getTotalIncome_sum: "getTotalIncome num d = num (sum_list (map r_amount (receipts d)))"
  by (simp add: getTotalIncome_def sqlSum_all_Some)

lemma getTotalExpenses_sum: "getTotalExpenses num d = num (sum_list (map e_amount (expenses d)))"
  by (simp add: getTotalExpenses_def sqlSum_all_Some)

text \<open>A whole number below \<open>2\<close> to the power \<open>53\<close> in size is a double: rounding leaves it as it is.\<close>

lemma roundHalfEven_of_int [simp]: "roundHalfEven (of_int m) = m"
  by (simp add: roundHalfEven_def Let_def)

lemma toDouble_of_int:
  assumes "\<bar>n\<bar> < 2 ^ 53"
  shows "toDouble (of_int n) = Finite (of_int n)"
proof (cases "n = 0")
  case True
  then show ?thesis by (simp add: toDouble_def)
next
  case False
  define m where "m = \<bar>n\<bar>"
  have m: "0 < m" "m < 2 ^ 53"
    using False assms by (simp_all add: m_def)
  have abs: "\<bar>of_int n :: rat\<bar> = of_int m"
    by (simp add: m_def)
  have b: "1 \<le> bitlen m" "bitlen m \<le> 53"
    using m bitlen_le_iff_power [of m 53] by (simp_all add: bitlen_alt_def)
  have fl: "floorLog2 (of_int m) = bitlen m - 1"
    using m by (simp add: floorLog2_def)
  define k where "k = nat (53 - bitlen m)"
  have e: "max (bitlen m - 1) (- 1022) - 52 = - int k"
    using b by (simp add: k_def)
  have ulp: "(2::rat) powi (- int k) = 1 / 2 ^ k"
    by (simp add: power_int_minus_divide)
  have q: "(of_int m :: rat) / (1 / 2 ^ k) = of_int (m * 2 ^ k)"
    by simp
  have y: "(of_int (m * 2 ^ k) :: rat) * (1 / 2 ^ k) = of_int m"
    by simp
  have "(of_int m :: rat) < 2 ^ 53"
    using m(2) by (metis of_int_less_numeral_power_cancel_iff)
  also have "\<dots> \<le> 2 ^ 1024"
    by (rule power_increasing) simp_all
  finally have small: "\<not> (2::rat) powi 1024 \<le> of_int m"
    by simp
  have s: "sgn (of_int n :: rat) * of_int m = of_int n"
    by (simp add: m_def sgn_if)
  show ?thesis
    using False
    by (simp only: toDouble_def abs fl e ulp q y roundHalfEven_of_int Let_def small s
        of_int_eq_0_iff if_False)
qed

text \<open>
  \<open>floorLog2\<close> is the exponent of the binade of a positive rational, and \<open>roundHalfEven\<close>
  is off by at most one half: \<open>toDouble x\<close> is a multiple of the unit in the last place
  of \<open>x\<close> at most half a unit away from \<open>x\<close>.
\<close>

lemma floorLog2_bounds:
  assumes "0 < x"
  shows "2 powi (floorLog2 x) \<le> x" and "x < 2 powi (floorLog2 x + 1)"
proof -
  have "2 powi (floorLog2 x) \<le> x \<and> x < 2 powi (floorLog2 x + 1)"
  proof (cases "1 \<le> x")
    case True
    define m where "m = \<lfloor>x\<rfloor>"
    have m: "0 < m" "of_int m \<le> x" "x < of_int m + 1"
      using True by (simp_all add: m_def) linarith
    have bl: "1 \<le> bitlen m"
      using m(1) by (simp add: bitlen_alt_def)
    define k where "k = nat (bitlen m - 1)"
    have k: "bitlen m - 1 = int k" "bitlen m - 1 + 1 = int (Suc k)" "nat (bitlen m) = Suc k"
      using bl by (simp_all add: k_def)
    have b: "2 ^ k \<le> m" "m < 2 ^ Suc k"
      using bitlen_bounds [OF m(1)] unfolding k_def [symmetric] k(3) by simp_all
    have "(2::rat) ^ k \<le> of_int m"
      using b(1) by (metis of_int_le_iff of_int_numeral of_int_power)
    then have lo: "(2::rat) ^ k \<le> x"
      using m(2) by (rule order_trans)
    have "m + 1 \<le> 2 ^ Suc k"
      using b(2) by simp
    then have "(of_int (m + 1) :: rat) \<le> of_int (2 ^ Suc k)"
      by (simp only: of_int_le_iff)
    then have "(of_int m :: rat) + 1 \<le> 2 ^ Suc k"
      by simp
    with m(3) have hi: "x < (2::rat) ^ Suc k"
      by (rule less_le_trans)
    have fl: "floorLog2 x = int k"
      using True by (simp add: floorLog2_def m_def [symmetric] k(1))
    show ?thesis
      unfolding fl using lo hi by (simp add: power_int_add)
  next
    case False
    then have x1: "x < 1" by simp
    define c where "c = \<lceil>1 / x\<rceil>"
    have inv: "1 < 1 / x"
      using assms x1 by simp
    have c: "1 / x \<le> of_int c" "of_int c - 1 < 1 / x"
      by (simp_all add: c_def) linarith
    have "(1::rat) < of_int c"
      using inv c(1) by (rule less_le_trans)
    then have c2: "2 \<le> c"
      by simp
    define n where "n = c - 1"
    have n: "0 < n" using c2 by (simp add: n_def)
    have bl: "1 \<le> bitlen n"
      using n by (simp add: bitlen_alt_def)
    define k where "k = nat (bitlen n - 1)"
    have k: "bitlen n = int (Suc k)" "nat (bitlen n) = Suc k" "nat (bitlen n - 1) = k"
      using bl by (simp_all add: k_def)
    have "2 ^ k \<le> n \<and> n < 2 ^ Suc k"
      using bitlen_bounds [OF n] by (simp only: k(2) k(3))
    then have b: "2 ^ k \<le> n" "n < 2 ^ Suc k"
      by blast+
    have fl: "floorLog2 x = - int (Suc k)"
      using False by (simp add: floorLog2_def c_def [symmetric] n_def [symmetric] k(1))
    have "c \<le> 2 ^ Suc k"
      using b(2) by (simp add: n_def)
    then have "(of_int c :: rat) \<le> of_int (2 ^ Suc k)"
      by (simp only: of_int_le_iff)
    then have "1 / x \<le> (2::rat) ^ Suc k"
      using c(1) by simp
    then have lo: "1 / (2::rat) ^ Suc k \<le> x"
      using assms by (simp add: field_simps)
    have "(of_int (2 ^ k) :: rat) \<le> of_int n"
      using b(1) by (simp only: of_int_le_iff)
    then have "(2::rat) ^ k < 1 / x"
      using c(2) by (simp add: n_def)
    then have hi: "x < 1 / (2::rat) ^ k"
      using assms by (simp add: field_simps)
    have p1: "(2::rat) powi (- int (Suc k)) = 1 / 2 ^ Suc k"
      by (simp only: power_int_minus_divide power_int_of_nat)
    have p2: "(2::rat) powi (- int (Suc k) + 1) = 1 / 2 ^ k"
    proof -
      have "- int (Suc k) + 1 = - int k" by simp
      then show ?thesis by (simp only: power_int_minus_divide power_int_of_nat)
    qed
    show ?thesis
      unfolding fl p1 p2 using lo hi by simp
  qed
  then show "2 powi (floorLog2 x) \<le> x" and "x < 2 powi (floorLog2 x + 1)"
    by simp_all
qed

lemma roundHalfEven_error: "\<bar>of_int (roundHalfEven y) - y\<bar> \<le> 1 / 2"
proof -
  have "of_int \<lfloor>y\<rfloor> \<le> y" "y < of_int \<lfloor>y\<rfloor> + 1"
    by linarith+
  then show ?thesis
    by (auto simp add: roundHalfEven_def Let_def abs_le_iff)
qed

lemma toDouble_error:
  assumes "toDouble x = Finite z"
  shows "\<bar>z - x\<bar> \<le> 2 powi (max (floorLog2 \<bar>x\<bar>) (- 1022) - 52) / 2"
proof (cases "x = 0")
  case True
  then show ?thesis using assms by (simp add: toDouble_def)
next
  case False
  define ulp :: rat where "ulp = 2 powi (max (floorLog2 \<bar>x\<bar>) (- 1022) - 52)"
  have pos: "0 < ulp"
    by (simp add: ulp_def)
  define q where "q = roundHalfEven (\<bar>x\<bar> / ulp)"
  have "toDouble x =
      (if 2 powi 1024 \<le> of_int q * ulp then (if 0 < x then PosInfinity else NegInfinity)
       else Finite (sgn x * (of_int q * ulp)))"
    unfolding toDouble_def Let_def q_def ulp_def using False by (simp only: if_False)
  then have z: "z = sgn x * (of_int q * ulp)"
    using assms by (simp split: if_splits)
  have "\<bar>of_int q - \<bar>x\<bar> / ulp\<bar> \<le> 1 / 2"
    unfolding q_def by (rule roundHalfEven_error)
  then have "\<bar>of_int q - \<bar>x\<bar> / ulp\<bar> * ulp \<le> 1 / 2 * ulp"
    using pos by (simp only: mult_le_cancel_right_pos)
  moreover have "\<bar>of_int q - \<bar>x\<bar> / ulp\<bar> * ulp = \<bar>of_int q * ulp - \<bar>x\<bar>\<bar>"
  proof -
    have "(of_int q - \<bar>x\<bar> / ulp) * ulp = of_int q * ulp - \<bar>x\<bar>"
      using pos by (simp add: left_diff_distrib)
    then have "\<bar>of_int q * ulp - \<bar>x\<bar>\<bar> = \<bar>(of_int q - \<bar>x\<bar> / ulp) * ulp\<bar>"
      by (simp only:)
    also have "\<dots> = \<bar>of_int q - \<bar>x\<bar> / ulp\<bar> * \<bar>ulp\<bar>"
      by (rule abs_mult)
    also have "\<bar>ulp\<bar> = ulp"
      using pos by (rule abs_of_pos)
    finally show ?thesis by (rule sym)
  qed
  ultimately have e: "\<bar>of_int q * ulp - \<bar>x\<bar>\<bar> \<le> ulp / 2"
    by simp
  have "\<bar>z - x\<bar> = \<bar>of_int q * ulp - \<bar>x\<bar>\<bar>"
  proof (cases "0 < x")
    case True
    then show ?thesis by (simp add: z)
  next
    case neg: False
    then have "x < 0" using False by simp
    then show ?thesis by (simp add: z abs_minus_commute)
  qed
  then show ?thesis
    using e by (simp add: ulp_def)
qed

lemma toDouble_relative_error:
  assumes "toDouble x = Finite z" and "2 powi (- 1022) \<le> \<bar>x\<bar>"
  shows "\<bar>z - x\<bar> \<le> \<bar>x\<bar> * 2 powi (- 53)"
proof -
  have pos: "0 < \<bar>x\<bar>"
    using assms(2) by (rule less_le_trans [rotated]) simp
  define e where "e = floorLog2 \<bar>x\<bar>"
  have b: "2 powi e \<le> \<bar>x\<bar>" "\<bar>x\<bar> < 2 powi (e + 1)"
    unfolding e_def using floorLog2_bounds [OF pos] by simp_all
  have "- 1022 \<le> e"
  proof (rule ccontr)
    assume "\<not> - 1022 \<le> e"
    then have "e + 1 \<le> - 1022" by simp
    then have "(2::rat) powi (e + 1) \<le> 2 powi (- 1022)"
      by (rule power_int_increasing) simp
    then show False
      using assms(2) b(2) by simp
  qed
  then have m: "max e (- 1022) = e" by simp
  have "\<bar>z - x\<bar> \<le> 2 powi (e - 52) / 2"
    using toDouble_error [OF assms(1)] unfolding e_def [symmetric] m .
  also have "(2::rat) powi (e - 52) / 2 = 2 powi e * 2 powi (- 53)"
  proof -
    have "(2::rat) powi (e - 52) = 2 powi e / 2 powi 52"
      by (rule power_int_diff) simp
    then show ?thesis by (simp add: power_int_minus_divide)
  qed
  also have "\<dots> \<le> \<bar>x\<bar> * 2 powi (- 53)"
    using b(1) by (intro mult_right_mono) simp_all
  finally show ?thesis .
qed

lemma dbCents_ok: "db_ok dbCents"
  by (simp add: db_ok_def types_ok_def int4_def decimal10_2_def keys_ok_def refs_ok_def
      refs_in_def opt_refs_in_def dbCents_def exDb_def exUser_def exTask_def exBook_def
      exReceipt_def exExpense_def exExpenseType_def)

lemma financials_js:
  "totalIncome (financials jsNumber jsSub d)
     = toDouble (of_int (sum_list (map r_amount (receipts d))) / 100)"
  "totalExpenses (financials jsNumber jsSub d)
     = toDouble (of_int (sum_list (map e_amount (expenses d))) / 100)"
  "currentBalance (financials jsNumber jsSub d)
     = jsSub (totalIncome (financials jsNumber jsSub d)) (totalExpenses (financials jsNumber jsSub d))"
  "getCurrentBalance jsNumber jsSub d = currentBalance (financials jsNumber jsSub d)"
  by (simp_all add: financials_def getCurrentBalance_def Let_def getTotalIncome_sum
      getTotalExpenses_sum jsNumber_def)

text \<open>
  C3 (amended). For every state of the store, the three numbers of the financials
  are IEEE 754 doubles: \<open>totalIncome\<close> is the double nearest to the sum of all receipt
  amounts, \<open>totalExpenses\<close> the double nearest to the sum of all expense amounts (zero
  for an empty table), and \<open>currentBalance\<close> is the rounded difference of these two
  doubles; the functions have no error branch. When both sums are whole numbers
  below \<open>2\<close> to the power \<open>52\<close> in size, the balance is their exact difference, negative
  when the expenses are the larger.
\<close>

theorem currentBalance_is_rounded_difference:
  "totalIncome (financials jsNumber jsSub d)
     = toDouble (of_int (sum_list (map r_amount (receipts d))) / 100)
   \<and> totalExpenses (financials jsNumber jsSub d)
     = toDouble (of_int (sum_list (map e_amount (expenses d))) / 100)
   \<and> currentBalance (financials jsNumber jsSub d)
     = jsSub (totalIncome (financials jsNumber jsSub d)) (totalExpenses (financials jsNumber jsSub d))
   \<and> getCurrentBalance jsNumber jsSub d = currentBalance (financials jsNumber jsSub d)
   \<and> (\<forall>i e. sum_list (map r_amount (receipts d)) = 100 * i
          \<and> sum_list (map e_amount (expenses d)) = 100 * e
          \<and> \<bar>i\<bar> < 2 ^ 52 \<and> \<bar>e\<bar> < 2 ^ 52
          \<longrightarrow> totalIncome (financials jsNumber jsSub d) = Finite (of_int i)
              \<and> totalExpenses (financials jsNumber jsSub d) = Finite (of_int e)
              \<and> currentBalance (financials jsNumber jsSub d) = Finite (of_int (i - e)))"
proof -
  have whole: "totalIncome (financials jsNumber jsSub d) = Finite (of_int i)
      \<and> totalExpenses (financials jsNumber jsSub d) = Finite (of_int e)
      \<and> currentBalance (financials jsNumber jsSub d) = Finite (of_int (i - e))"
    if "sum_list (map r_amount (receipts d)) = 100 * i"
      and "sum_list (map e_amount (expenses d)) = 100 * e"
      and "\<bar>i\<bar> < 2 ^ 52" and "\<bar>e\<bar> < 2 ^ 52" for i e
  proof -
    have "\<bar>i\<bar> < 2 ^ 53" "\<bar>e\<bar> < 2 ^ 53" "\<bar>i - e\<bar> < 2 ^ 53"
      using that(3,4) by simp_all
    then have r: "toDouble (of_int i) = Finite (of_int i)" "toDouble (of_int e) = Finite (of_int e)"
      "toDouble (of_int (i - e)) = Finite (of_int (i - e))"
      by (simp_all only: toDouble_of_int)
    have ti: "totalIncome (financials jsNumber jsSub d) = Finite (of_int i)"
      unfolding financials_js(1) that(1) using r(1) by simp
    have te: "totalExpenses (financials jsNumber jsSub d) = Finite (of_int e)"
      unfolding financials_js(2) that(2) using r(2) by simp
    have "currentBalance (financials jsNumber jsSub d) = Finite (of_int (i - e))"
      unfolding financials_js(3) ti te using r(3) by simp
    then show ?thesis
      using ti te by simp
  qed
  show ?thesis
    using financials_js [of d] whole by blast
qed

text \<open>Income 100.00 and expenses 250.00: the balance is the number -150.\<close>

theorem currentBalance_is_rounded_difference_witness:
  "sum_list (map r_amount (receipts dbOverspent)) = 100 * 100
   \<and> sum_list (map e_amount (expenses dbOverspent)) = 100 * 250
   \<and> \<bar>100 :: int\<bar> < 2 ^ 52 \<and> \<bar>250 :: int\<bar> < 2 ^ 52
   \<and> totalIncome (financials jsNumber jsSub dbOverspent) = Finite 100
   \<and> totalExpenses (financials jsNumber jsSub dbOverspent) = Finite 250
   \<and> currentBalance (financials jsNumber jsSub dbOverspent) = Finite (- 150)"
proof -
  have s: "sum_list (map r_amount (receipts dbOverspent)) = 100 * 100"
    "sum_list (map e_amount (expenses dbOverspent)) = 100 * 250"
    by (simp_all add: dbOverspent_def exDb_def exReceipt_def exExpense_def)
  have b: "\<bar>100 :: int\<bar> < 2 ^ 52" "\<bar>250 :: int\<bar> < 2 ^ 52"
    by simp_all
  have "totalIncome (financials jsNumber jsSub dbOverspent) = Finite (of_int 100)
      \<and> totalExpenses (financials jsNumber jsSub dbOverspent) = Finite (of_int 250)
      \<and> currentBalance (financials jsNumber jsSub dbOverspent) = Finite (of_int (100 - 250))"
    using currentBalance_is_rounded_difference [of dbOverspent] s b by blast
  then show ?thesis
    using s b by simp
qed

lemma toDouble_examples:
  "toDouble (3 / 10) = Finite (5404319552844595 / 18014398509481984)"
  "toDouble (1 / 10) = Finite (3602879701896397 / 36028797018963968)"
  "toDouble (1 / 5) = Finite (3602879701896397 / 18014398509481984)"
  "toDouble (5404319552844595 / 18014398509481984 - 3602879701896397 / 36028797018963968)
     = Finite (7205759403792793 / 36028797018963968)"
  by code_simp+

text \<open>
  C3 as stated fails: with one receipt of 0.30 and one expense of 0.10 the balance is
  the double 7205759403792793 / 2^55, which JavaScript prints as 0.19999999999999998;
  it is neither 0.2 nor the double nearest to 0.2.
\<close>

theorem currentBalance_not_exact_counterexample:
  "db_ok dbCents
   \<and> sum_list (map r_amount (receipts dbCents)) = 30
   \<and> sum_list (map e_amount (expenses dbCents)) = 10
   \<and> totalIncome (financials jsNumber jsSub dbCents)
       = Finite (5404319552844595 / 18014398509481984)
   \<and> totalExpenses (financials jsNumber jsSub dbCents)
       = Finite (3602879701896397 / 36028797018963968)
   \<and> currentBalance (financials jsNumber jsSub dbCents)
       = Finite (7205759403792793 / 36028797018963968)
   \<and> jsNumber (30 - 10) = Finite (3602879701896397 / 18014398509481984)
   \<and> currentBalance (financials jsNumber jsSub dbCents) \<noteq> jsNumber (30 - 10)
   \<and> currentBalance (financials jsNumber jsSub dbCents) \<noteq> Finite (1 / 5)"
proof -
  have s: "sum_list (map r_amount (receipts dbCents)) = 30"
    "sum_list (map e_amount (expenses dbCents)) = 10"
    by (simp_all add: dbCents_def exDb_def exReceipt_def exExpense_def)
  have ti: "totalIncome (financials jsNumber jsSub dbCents)
       = Finite (5404319552844595 / 18014398509481984)"
    unfolding financials_js(1) s using toDouble_examples(1) by simp
  have te: "totalExpenses (financials jsNumber jsSub dbCents)
       = Finite (3602879701896397 / 36028797018963968)"
    unfolding financials_js(2) s using toDouble_examples(2) by simp
  have cb: "currentBalance (financials jsNumber jsSub dbCents)
       = Finite (7205759403792793 / 36028797018963968)"
    unfolding financials_js(3) ti te using toDouble_examples(4) by (simp only: jsSub.simps)
  have n: "jsNumber (30 - 10) = Finite (3602879701896397 / 18014398509481984)"
    using toDouble_examples(3) by (simp add: jsNumber_def)
  show ?thesis
    unfolding cb n using dbCents_ok s ti te by simp
qed

section \<open>Income by task\<close>

text \<open>
  C4. The two left joins of \<open>getIncomeByTask\<close> pair every receipt of a task with every
  receipt book of the task. For one task with two books and two receipts (100.00 and
  50.00) the query returns the total 300.00 and the book count 4, while the task's
  receipts sum to 150.00 and it has 2 books.
\<close>

theorem getIncomeByTask_fan_out:
  "db_ok dbTwoBooks
   \<and> getIncomeByTask num dbTwoBooks =
     [\<lparr>taskId = ''t1'', taskName = ''Building fund'', total_sum = num 30000,
       receiptBookCount = 4\<rparr>]
   \<and> sum_list (map r_amount (filter (\<lambda>r. r_taskId r = ''t1'') (receipts dbTwoBooks))) = 15000
   \<and> length (filter (\<lambda>b. rb_taskId b = ''t1'') (receiptBooks dbTwoBooks)) = 2"
  using dbTwoBooks_ok
  by (simp add: getIncomeByTask_def incomeJoin_def leftJoin_def groupKey_def sqlSum_def
      sqlCount_def orZero_def List.map_filter_simps Let_def
      dbTwoBooks_def exDb_def exReceipt_def exBook_def exTask_def)

text \<open>
  C5. In the same state the task set is not empty and every receipt names a task, yet
  the only per-task total is 300.00 while \<open>getTotalIncome\<close> is 150.00.
\<close>

theorem task_totals_exceed_total_income:
  "db_ok dbTwoBooks
   \<and> tasks dbTwoBooks \<noteq> []
   \<and> list_all (\<lambda>r. r_taskId r \<in> set (map t_id (tasks dbTwoBooks))) (receipts dbTwoBooks)
   \<and> map total_sum (getIncomeByTask num dbTwoBooks) = [num 30000]
   \<and> getTotalIncome num dbTwoBooks = num 15000"
  using dbTwoBooks_ok
  by (simp add: getIncomeByTask_def incomeJoin_def leftJoin_def groupKey_def sqlSum_def
      sqlCount_def orZero_def List.map_filter_simps Let_def getTotalIncome_def
      dbTwoBooks_def exDb_def exReceipt_def exBook_def exTask_def)

section \<open>The constraints of the schema are an invariant of the store\<close>

text \<open>
  The empty store satisfies the constraints of the schema, and every statement the
  store accepts keeps them: the states the store can reach all satisfy \<open>db_ok\<close>.
\<close>

lemma fresh_keys_Nil [simp]: "fresh_keys key old []"
  by (simp add: fresh_keys_def)

lemma fresh_keys_empty [simp]: "fresh_keys key [] rows = distinct (map key rows)"
  by (simp add: fresh_keys_def list_all_iff)

lemma refs_in_Nil [simp]: "refs_in fk [] ids"
  by (simp add: refs_in_def)

lemma opt_refs_in_Nil [simp]: "opt_refs_in fk [] ids"
  by (simp add: opt_refs_in_def)

lemma referenced_Nil [simp]: "\<not> referenced ids []"
  by (simp add: referenced_def)


lemma fresh_keysD:
  "fresh_keys key old rows \<Longrightarrow>
   distinct (map key rows) \<and> (\<forall>x \<in> set old. \<forall>y \<in> set rows. key x \<noteq> key y)"
  by (auto simp add: fresh_keys_def list_all_iff) (metis imageI)

lemma refs_in_append [simp]:
  "refs_in fk (old @ rows) ids \<longleftrightarrow> refs_in fk old ids \<and> refs_in fk rows ids"
  by (simp add: refs_in_def)

lemma opt_refs_in_append [simp]:
  "opt_refs_in fk (old @ rows) ids \<longleftrightarrow> opt_refs_in fk old ids \<and> opt_refs_in fk rows ids"
  by (simp add: opt_refs_in_def)

lemma refs_in_grow [simp]: "refs_in fk rows ids \<Longrightarrow> refs_in fk rows (ids @ ids2)"
  by (auto simp add: refs_in_def list_all_iff)

lemma opt_refs_in_grow [simp]:
  "opt_refs_in fk rows ids \<Longrightarrow> opt_refs_in fk rows (ids @ ids2)"
  by (auto simp add: opt_refs_in_def list_all_iff split: option.splits)

lemma unreferenced_Nil:
  "refs_in fk rows ids \<Longrightarrow> \<not> referenced ids (map fk rows) \<Longrightarrow> rows = []"
  by (cases rows) (auto simp add: refs_in_def referenced_def)

lemma unreferenced_opt:
  "opt_refs_in fk rows ids \<Longrightarrow> \<not> referenced ids (List.map_filter fk rows) \<Longrightarrow>
   opt_refs_in fk rows []"
  by (induction rows)
    (auto simp add: opt_refs_in_def referenced_def List.map_filter_simps split: option.splits)

lemma referenced_append [simp]:
  "referenced ids (xs @ ys) \<longleftrightarrow> referenced ids xs \<or> referenced ids ys"
  by (simp add: referenced_def)

lemma emptyDb_ok: "db_ok emptyDb"
  by (simp add: db_ok_def types_ok_def keys_ok_def refs_ok_def emptyDb_def)

lemma insertUsers_ok: "db_ok d \<Longrightarrow> insertUsers rows d = Inr d' \<Longrightarrow> db_ok d'"
  by (auto simp add: insertUsers_def db_ok_def types_ok_def keys_ok_def refs_ok_def dest!: fresh_keysD split: if_splits)

lemma insertTasks_ok: "db_ok d \<Longrightarrow> insertTasks rows d = Inr d' \<Longrightarrow> db_ok d'"
  by (auto simp add: insertTasks_def db_ok_def types_ok_def keys_ok_def refs_ok_def dest!: fresh_keysD split: if_splits)

lemma insertExpenseTypes_ok: "db_ok d \<Longrightarrow> insertExpenseTypes rows d = Inr d' \<Longrightarrow> db_ok d'"
  by (auto simp add: insertExpenseTypes_def db_ok_def types_ok_def keys_ok_def refs_ok_def dest!: fresh_keysD split: if_splits)

lemma insertReceiptBooks_ok: "db_ok d \<Longrightarrow> insertReceiptBooks rows d = Inr d' \<Longrightarrow> db_ok d'"
  by (auto simp add: insertReceiptBooks_def db_ok_def types_ok_def keys_ok_def refs_ok_def dest!: fresh_keysD split: if_splits)

lemma insertReceipts_ok: "db_ok d \<Longrightarrow> insertReceipts rows d = Inr d' \<Longrightarrow> db_ok d'"
  by (auto simp add: insertReceipts_def db_ok_def types_ok_def keys_ok_def refs_ok_def dest!: fresh_keysD split: if_splits)

lemma insertExpenses_ok: "db_ok d \<Longrightarrow> insertExpenses rows d = Inr d' \<Longrightarrow> db_ok d'"
  by (auto simp add: insertExpenses_def db_ok_def types_ok_def keys_ok_def refs_ok_def dest!: fresh_keysD split: if_splits)

lemma insertPublishedReports_ok:
  "db_ok d \<Longrightarrow> insertPublishedReports rows d = Inr d' \<Longrightarrow> db_ok d'"
  by (auto simp add: insertPublishedReports_def db_ok_def types_ok_def keys_ok_def refs_ok_def dest!: fresh_keysD split: if_splits)

lemma deleteAll_ok: "db_ok d \<Longrightarrow> deleteAll t d = Inr d' \<Longrightarrow> db_ok d'"
proof (cases t)
  case Users
  assume "db_ok d" and "deleteAll t d = Inr d'"
  then show ?thesis
    using Users
    by (auto simp add: db_ok_def types_ok_def keys_ok_def refs_ok_def userRefs_def
        dest: unreferenced_Nil unreferenced_opt dest!: fresh_keysD split: if_splits)
next
  case Tasks
  assume "db_ok d" and "deleteAll t d = Inr d'"
  then show ?thesis
    using Tasks
    by (auto simp add: db_ok_def types_ok_def keys_ok_def refs_ok_def
        dest: unreferenced_Nil dest!: fresh_keysD split: if_splits)
next
  case ExpenseTypes
  assume "db_ok d" and "deleteAll t d = Inr d'"
  then show ?thesis
    using ExpenseTypes
    by (auto simp add: db_ok_def types_ok_def keys_ok_def refs_ok_def
        dest: unreferenced_Nil dest!: fresh_keysD split: if_splits)
next
  case ReceiptBooks
  assume "db_ok d" and "deleteAll t d = Inr d'"
  then show ?thesis
    using ReceiptBooks
    by (auto simp add: db_ok_def types_ok_def keys_ok_def refs_ok_def
        dest: unreferenced_Nil dest!: fresh_keysD split: if_splits)
next
  case Receipts
  assume "db_ok d" and "deleteAll t d = Inr d'"
  then show ?thesis
    using Receipts by (auto simp add: db_ok_def types_ok_def keys_ok_def refs_ok_def)
next
  case Expenses
  assume "db_ok d" and "deleteAll t d = Inr d'"
  then show ?thesis
    using Expenses by (auto simp add: db_ok_def types_ok_def keys_ok_def refs_ok_def)
next
  case PublishedReports
  assume "db_ok d" and "deleteAll t d = Inr d'"
  then show ?thesis
    using PublishedReports by (auto simp add: db_ok_def types_ok_def keys_ok_def refs_ok_def)
qed

lemma exec_preserves_db_ok: "db_ok d \<Longrightarrow> exec s d = Inr d' \<Longrightarrow> db_ok d'"
  by (cases s)
    (auto intro: deleteAll_ok insertUsers_ok insertTasks_ok insertExpenseTypes_ok
      insertReceiptBooks_ok insertReceipts_ok insertExpenses_ok insertPublishedReports_ok)

lemma run_preserves_db_ok: "db_ok d \<Longrightarrow> db_ok (store (run ss d))"
  by (induction ss arbitrary: d)
    (auto simp add: Let_def split: sum.splits intro: exec_preserves_db_ok)

lemma promiseAll_preserves_db_ok: "db_ok d \<Longrightarrow> db_ok (store (promiseAll ss d))"
  by (induction ss arbitrary: d)
    (auto simp add: Let_def split: sum.splits intro: exec_preserves_db_ok)

lemma andThen_preserves_db_ok:
  "db_ok (store r) \<Longrightarrow> (\<And>d. db_ok d \<Longrightarrow> db_ok (store (f d))) \<Longrightarrow> db_ok (store (andThen r f))"
  by (simp add: andThen_def Let_def split: option.splits)

lemma restoreFromBackup_preserves_db_ok:
  "db_ok d \<Longrightarrow> db_ok (store (restoreFromBackup sched b d))"
  unfolding restoreFromBackup_def clearExistingData_def
  by (intro andThen_preserves_db_ok promiseAll_preserves_db_ok run_preserves_db_ok)

section \<open>Restore: the two phases\<close>

lemma executed_promiseAll [simp]: "executed (promiseAll ss d) = ss"
  by (induction ss arbitrary: d) (auto simp add: Let_def split: sum.splits)

lemma executed_run_prefix: "prefix (executed (run ss d)) ss"
  by (induction ss arbitrary: d) (auto simp add: Let_def split: sum.splits)

lemma executed_run_all: "thrown (run ss d) = None \<Longrightarrow> executed (run ss d) = ss"
  by (induction ss arbitrary: d) (auto simp add: Let_def split: sum.splits)

lemma permuting_set: "permuting sched \<Longrightarrow> set (sched g) = set g"
  by (metis permuting_def set_mset_mset)

lemma permuting_pair:
  assumes "permuting sched"
  shows "sched [a, b] = [a, b] \<or> sched [a, b] = [b, a]"
proof -
  have m: "mset (sched [a, b]) = mset [a, b]"
    using assms by (simp add: permuting_def)
  then have "length (sched [a, b]) = 2"
    by (metis length_Cons list.size(3) size_mset numeral_2_eq_2)
  then obtain x y where xy: "sched [a, b] = [x, y]"
    by (auto simp add: length_Suc_conv numeral_2_eq_2)
  show ?thesis
    using m unfolding xy by (auto simp add: add_eq_conv_ex)
qed

lemma result_andThen:
  "result (andThen r f) = (case thrown r of Some e \<Rightarrow> result r | None \<Rightarrow> result (f (store r)))"
  by (simp add: andThen_def result_def Let_def split: option.splits)

lemma executed_andThen:
  "executed (andThen r f) =
     executed r @ (case thrown r of Some e \<Rightarrow> [] | None \<Rightarrow> executed (f (store r)))"
  by (simp add: andThen_def Let_def split: option.splits)

lemma promiseAll_leaves_fields:
  assumes "set ss \<subseteq> {DeleteFrom Receipts, DeleteFrom Expenses, DeleteFrom PublishedReports}"
  shows "thrown (promiseAll ss d) = None
    \<and> users (store (promiseAll ss d)) = users d
    \<and> tasks (store (promiseAll ss d)) = tasks d
    \<and> receiptBooks (store (promiseAll ss d)) = receiptBooks d
    \<and> expenseTypes (store (promiseAll ss d)) = expenseTypes d
    \<and> receipts (store (promiseAll ss d)) = (if DeleteFrom Receipts \<in> set ss then [] else receipts d)
    \<and> expenses (store (promiseAll ss d)) = (if DeleteFrom Expenses \<in> set ss then [] else expenses d)
    \<and> publishedReports (store (promiseAll ss d))
        = (if DeleteFrom PublishedReports \<in> set ss then [] else publishedReports d)"
  using assms by (induction ss arbitrary: d) (auto simp add: Let_def)

lemma promiseAll_leaves:
  assumes "permuting sched"
  shows "result (promiseAll
           (sched [DeleteFrom Receipts, DeleteFrom Expenses, DeleteFrom PublishedReports]) d)
         = (None, d\<lparr>receipts := [], expenses := [], publishedReports := []\<rparr>)"
  using promiseAll_leaves_fields
    [of "sched [DeleteFrom Receipts, DeleteFrom Expenses, DeleteFrom PublishedReports]" d]
    permuting_set [OF assms, of "[DeleteFrom Receipts, DeleteFrom Expenses, DeleteFrom PublishedReports]"]
  by (simp add: result_def)

lemma promiseAll_middle_fields:
  assumes "set ss \<subseteq> {DeleteFrom ReceiptBooks, DeleteFrom ExpenseTypes}"
    and "receipts d = []" and "expenses d = []"
  shows "thrown (promiseAll ss d) = None
    \<and> users (store (promiseAll ss d)) = users d
    \<and> tasks (store (promiseAll ss d)) = tasks d
    \<and> receipts (store (promiseAll ss d)) = []
    \<and> expenses (store (promiseAll ss d)) = []
    \<and> publishedReports (store (promiseAll ss d)) = publishedReports d
    \<and> receiptBooks (store (promiseAll ss d))
        = (if DeleteFrom ReceiptBooks \<in> set ss then [] else receiptBooks d)
    \<and> expenseTypes (store (promiseAll ss d))
        = (if DeleteFrom ExpenseTypes \<in> set ss then [] else expenseTypes d)"
  using assms by (induction ss arbitrary: d) (auto simp add: Let_def)

lemma promiseAll_middle:
  assumes "permuting sched" and "receipts d = []" and "expenses d = []"
  shows "result (promiseAll (sched [DeleteFrom ReceiptBooks, DeleteFrom ExpenseTypes]) d)
         = (None, d\<lparr>receiptBooks := [], expenseTypes := []\<rparr>)"
  using promiseAll_middle_fields
    [of "sched [DeleteFrom ReceiptBooks, DeleteFrom ExpenseTypes]" d]
    permuting_set [OF assms(1), of "[DeleteFrom ReceiptBooks, DeleteFrom ExpenseTypes]"] assms(2,3)
  by (simp add: result_def)

lemma promiseAll_roots:
  assumes "receiptBooks d = []" "receipts d = []" "expenseTypes d = []" "expenses d = []"
    "publishedReports d = []"
  shows "result (promiseAll [DeleteFrom Tasks, DeleteFrom Users] d)
           = (None, d\<lparr>tasks := [], users := []\<rparr>)"
    and "result (promiseAll [DeleteFrom Users, DeleteFrom Tasks] d)
           = (if referenced (map u_id (users d)) (map t_createdBy (tasks d))
              then (Some (ForeignKeyViolation Users), d\<lparr>tasks := []\<rparr>)
              else (None, d\<lparr>users := [], tasks := []\<rparr>))"
  using assms by (simp_all add: result_def userRefs_def List.map_filter_simps Let_def)

lemma clearExistingData_result:
  assumes "permuting sched"
  shows "result (clearExistingData sched d) =
           (if usersDeleteRefused sched d
            then (Some (ForeignKeyViolation Users), emptyDb\<lparr>users := users d\<rparr>)
            else (None, emptyDb))"
proof -
  define d1 where "d1 = d\<lparr>receipts := [], expenses := [], publishedReports := []\<rparr>"
  define d2 where "d2 = d1\<lparr>receiptBooks := [], expenseTypes := []\<rparr>"
  have g1: "result (promiseAll
           (sched [DeleteFrom Receipts, DeleteFrom Expenses, DeleteFrom PublishedReports]) d)
         = (None, d1)"
    unfolding d1_def by (rule promiseAll_leaves [OF assms])
  have g2: "result (promiseAll (sched [DeleteFrom ReceiptBooks, DeleteFrom ExpenseTypes]) d1)
         = (None, d2)"
    unfolding d2_def by (rule promiseAll_middle [OF assms]) (simp_all add: d1_def)
  have e: "receiptBooks d2 = []" "receipts d2 = []" "expenseTypes d2 = []" "expenses d2 = []"
    "publishedReports d2 = []" "users d2 = users d" "tasks d2 = tasks d"
    by (simp_all add: d1_def d2_def)
  have s1: "d2\<lparr>tasks := [], users := []\<rparr> = emptyDb" "d2\<lparr>users := [], tasks := []\<rparr> = emptyDb"
    "d2\<lparr>tasks := []\<rparr> = emptyDb\<lparr>users := users d\<rparr>"
    by (simp_all add: d1_def d2_def emptyDb_def)
  have g3: "result (promiseAll (sched [DeleteFrom Tasks, DeleteFrom Users]) d2) =
           (if usersDeleteRefused sched d
            then (Some (ForeignKeyViolation Users), emptyDb\<lparr>users := users d\<rparr>)
            else (None, emptyDb))"
  proof (cases "sched [DeleteFrom Tasks, DeleteFrom Users] = [DeleteFrom Users, DeleteFrom Tasks]")
    case True
    show ?thesis
      unfolding usersDeleteRefused_def True promiseAll_roots(2) [OF e(1-5)] e s1 by simp
  next
    case False
    then have "sched [DeleteFrom Tasks, DeleteFrom Users] = [DeleteFrom Tasks, DeleteFrom Users]"
      using permuting_pair [OF assms, of "DeleteFrom Tasks" "DeleteFrom Users"] by simp
    then show ?thesis
      unfolding usersDeleteRefused_def using False promiseAll_roots(1) [OF e(1-5)] s1 by simp
  qed
  have t1: "thrown (promiseAll
           (sched [DeleteFrom Receipts, DeleteFrom Expenses, DeleteFrom PublishedReports]) d) = None"
    "store (promiseAll
           (sched [DeleteFrom Receipts, DeleteFrom Expenses, DeleteFrom PublishedReports]) d) = d1"
    using g1 by (simp_all add: result_def)
  have t2: "thrown (promiseAll (sched [DeleteFrom ReceiptBooks, DeleteFrom ExpenseTypes]) d1) = None"
    "store (promiseAll (sched [DeleteFrom ReceiptBooks, DeleteFrom ExpenseTypes]) d1) = d2"
    using g2 by (simp_all add: result_def)
  show ?thesis
    unfolding clearExistingData_def
    by (simp only: result_andThen t1 t2 option.case g3)
qed

lemma clearExistingData_deletes:
  assumes "permuting sched"
  shows "filter is_insert (executed (clearExistingData sched d)) = []"
proof -
  have "set (executed (clearExistingData sched d)) \<subseteq> range DeleteFrom"
    unfolding clearExistingData_def
    by (auto simp add: executed_andThen permuting_set [OF assms] split: option.splits)
  then show ?thesis
    by (auto simp add: filter_empty_conv)
qed

text \<open>Inserting no rows changes nothing, so a skipped insert is an insert of no rows.\<close>

lemma inert_inserts:
  "inert InsertUsers" "inert InsertTasks" "inert InsertExpenseTypes" "inert InsertReceiptBooks"
  "inert InsertReceipts" "inert InsertExpenses" "inert InsertPublishedReports"
  by (simp_all add: inert_def insertUsers_def insertTasks_def insertExpenseTypes_def
      insertReceiptBooks_def insertReceipts_def insertExpenses_def insertPublishedReports_def)

lemma result_run_Cons:
  "result (run (s # ss) d) =
     (case exec s d of Inl e \<Rightarrow> (Some e, d) | Inr d' \<Rightarrow> result (run ss d'))"
  by (simp add: result_def Let_def split: sum.splits)

lemma result_run_ifRows:
  assumes "inert ins"
  shows "result (run (ifRows ins c @ rest) d) = result (run (ins (rows_of c) # rest) d)"
proof (cases c)
  case None
  then show ?thesis using assms by (simp add: rows_of_def inert_def result_run_Cons del: run.simps)
next
  case (Some rows)
  then show ?thesis using assms by (cases rows) (simp_all add: rows_of_def inert_def result_run_Cons del: run.simps)
qed

lemma result_run_Cons_cong:
  "(\<And>d. result (run ss d) = result (run ss' d)) \<Longrightarrow>
   result (run (s # ss) d) = result (run (s # ss') d)"
  by (simp add: result_run_Cons del: run.simps split: sum.splits)

lemma result_run_inserts: "result (run (insertStatements b) d) = result (run (insertAll b) d)"
proof -
  have 7: "result (run (ifRows InsertPublishedReports (b_publishedReports b)) d)
           = result (run [InsertPublishedReports (rows_of (b_publishedReports b))] d)" for d
    using result_run_ifRows [OF inert_inserts(7), of "b_publishedReports b" "[]" d] by simp
  have 6: "result (run (ifRows InsertExpenses (b_expenses b)
                @ ifRows InsertPublishedReports (b_publishedReports b)) d)
           = result (run [InsertExpenses (rows_of (b_expenses b)),
                  InsertPublishedReports (rows_of (b_publishedReports b))] d)" for d
    by (simp only: result_run_ifRows [OF inert_inserts(6)] result_run_Cons_cong [OF 7])
  have 5: "result (run (ifRows InsertReceipts (b_receipts b) @ ifRows InsertExpenses (b_expenses b)
                @ ifRows InsertPublishedReports (b_publishedReports b)) d)
           = result (run [InsertReceipts (rows_of (b_receipts b)),
                  InsertExpenses (rows_of (b_expenses b)),
                  InsertPublishedReports (rows_of (b_publishedReports b))] d)" for d
    by (simp only: result_run_ifRows [OF inert_inserts(5)] result_run_Cons_cong [OF 6])
  have 4: "result (run (ifRows InsertReceiptBooks (b_receiptBooks b)
                @ ifRows InsertReceipts (b_receipts b) @ ifRows InsertExpenses (b_expenses b)
                @ ifRows InsertPublishedReports (b_publishedReports b)) d)
           = result (run [InsertReceiptBooks (rows_of (b_receiptBooks b)),
                  InsertReceipts (rows_of (b_receipts b)), InsertExpenses (rows_of (b_expenses b)),
                  InsertPublishedReports (rows_of (b_publishedReports b))] d)" for d
    by (simp only: result_run_ifRows [OF inert_inserts(4)] result_run_Cons_cong [OF 5])
  have 3: "result (run (ifRows InsertExpenseTypes (b_expenseTypes b)
                @ ifRows InsertReceiptBooks (b_receiptBooks b)
                @ ifRows InsertReceipts (b_receipts b) @ ifRows InsertExpenses (b_expenses b)
                @ ifRows InsertPublishedReports (b_publishedReports b)) d)
           = result (run [InsertExpenseTypes (rows_of (b_expenseTypes b)),
                  InsertReceiptBooks (rows_of (b_receiptBooks b)),
                  InsertReceipts (rows_of (b_receipts b)), InsertExpenses (rows_of (b_expenses b)),
                  InsertPublishedReports (rows_of (b_publishedReports b))] d)" for d
    by (simp only: result_run_ifRows [OF inert_inserts(3)] result_run_Cons_cong [OF 4])
  have 2: "result (run (ifRows InsertTasks (b_tasks b)
                @ ifRows InsertExpenseTypes (b_expenseTypes b)
                @ ifRows InsertReceiptBooks (b_receiptBooks b)
                @ ifRows InsertReceipts (b_receipts b) @ ifRows InsertExpenses (b_expenses b)
                @ ifRows InsertPublishedReports (b_publishedReports b)) d)
           = result (run [InsertTasks (rows_of (b_tasks b)),
                  InsertExpenseTypes (rows_of (b_expenseTypes b)),
                  InsertReceiptBooks (rows_of (b_receiptBooks b)),
                  InsertReceipts (rows_of (b_receipts b)), InsertExpenses (rows_of (b_expenses b)),
                  InsertPublishedReports (rows_of (b_publishedReports b))] d)" for d
    by (simp only: result_run_ifRows [OF inert_inserts(2)] result_run_Cons_cong [OF 3])
  show ?thesis
    unfolding insertAll_def insertStatements_def
    by (simp only: result_run_ifRows [OF inert_inserts(1)] result_run_Cons_cong [OF 2])
qed

lemma result_run_Cons_if1:
  "exec s d = (if k then Inr d' else Inl e1) \<Longrightarrow>
   result (run (s # ss) d) = (if \<not> k then (Some e1, d) else result (run ss d'))"
  by (simp add: result_run_Cons del: run.simps)

lemma result_run_Cons_if2:
  "exec s d = (if \<not> k then Inl e1 else if \<not> f then Inl e2 else Inr d') \<Longrightarrow>
   result (run (s # ss) d) =
     (if \<not> k then (Some e1, d) else if \<not> f then (Some e2, d) else result (run ss d'))"
  by (simp add: result_run_Cons del: run.simps)

lemma result_run_Cons_if3:
  "exec s d = (if \<not> t then Inl e0 else if \<not> k then Inl e1 else if \<not> f then Inl e2 else Inr d') \<Longrightarrow>
   result (run (s # ss) d) =
     (if \<not> t then (Some e0, d) else if \<not> k then (Some e1, d) else if \<not> f then (Some e2, d)
      else result (run ss d'))"
  by (simp add: result_run_Cons del: run.simps)

lemma result_run_Nil: "result (run [] d) = (None, d)"
  by (simp add: result_def)

lemma run_insertAll:
  fixes b :: backupData
  shows run_insertAll_success: "fst (result (run (insertAll b) emptyDb)) = None \<longleftrightarrow> db_ok (dbOf b)"
    and run_insertAll_state: "db_ok (dbOf b) \<Longrightarrow> result (run (insertAll b) emptyDb) = (None, dbOf b)"
    and run_insertAll_partly: "partlyRestored b (snd (result (run (insertAll b) emptyDb)))"
proof -
  define U where "U = rows_of (b_users b)"
  define T where "T = rows_of (b_tasks b)"
  define ET where "ET = rows_of (b_expenseTypes b)"
  define RB where "RB = rows_of (b_receiptBooks b)"
  define R where "R = rows_of (b_receipts b)"
  define E where "E = rows_of (b_expenses b)"
  define P where "P = rows_of (b_publishedReports b)"
  note rows = U_def T_def ET_def RB_def R_def E_def P_def
  define d1 where "d1 = emptyDb\<lparr>users := U\<rparr>"
  define d2 where "d2 = d1\<lparr>tasks := T\<rparr>"
  define d3 where "d3 = d2\<lparr>expenseTypes := ET\<rparr>"
  define d4 where "d4 = d3\<lparr>receiptBooks := RB\<rparr>"
  define d5 where "d5 = d4\<lparr>receipts := R\<rparr>"
  define d6 where "d6 = d5\<lparr>expenses := E\<rparr>"
  define d7 where "d7 = d6\<lparr>publishedReports := P\<rparr>"
  note states = emptyDb_def d1_def d2_def d3_def d4_def d5_def d6_def d7_def
  define kU where "kU \<longleftrightarrow> distinct (map u_id U) \<and> distinct (map u_username U)"
  define kT where "kT \<longleftrightarrow> distinct (map t_id T)"
  define fT where "fT \<longleftrightarrow> refs_in t_createdBy T (map u_id U)"
  define kET where "kET \<longleftrightarrow> distinct (map et_id ET) \<and> distinct (map et_name ET)"
  define fET where "fET \<longleftrightarrow> refs_in et_createdBy ET (map u_id U)"
  define tRB where "tRB \<longleftrightarrow> list_all (\<lambda>b. int4 (rb_startingReceiptNumber b)
      \<and> int4 (rb_endingReceiptNumber b) \<and> int4 (rb_totalReceipts b)) RB"
  define kRB where "kRB \<longleftrightarrow> distinct (map rb_id RB) \<and> distinct (map rb_bookNumber RB)"
  define fRB where "fRB \<longleftrightarrow> refs_in rb_taskId RB (map t_id T)
      \<and> opt_refs_in rb_assignedTo RB (map u_id U) \<and> refs_in rb_createdBy RB (map u_id U)"
  define tR where "tR \<longleftrightarrow> list_all (\<lambda>r. int4 (r_receiptNumber r) \<and> decimal10_2 (r_amount r)) R"
  define kR where "kR \<longleftrightarrow> distinct (map r_id R)"
  define fR where "fR \<longleftrightarrow> refs_in r_receiptBookId R (map rb_id RB)
      \<and> refs_in r_taskId R (map t_id T) \<and> refs_in r_enteredBy R (map u_id U)"
  define tE where "tE \<longleftrightarrow> list_all (\<lambda>e. decimal10_2 (e_amount e)) E"
  define kE where "kE \<longleftrightarrow> distinct (map e_id E)"
  define fE where "fE \<longleftrightarrow> refs_in e_expenseTypeId E (map et_id ET)
      \<and> refs_in e_createdBy E (map u_id U)"
  define kP where "kP \<longleftrightarrow> distinct (map pr_id P)"
  define fP where "fP \<longleftrightarrow> refs_in pr_publishedBy P (map u_id U)"
  note conds = kU_def kT_def fT_def kET_def fET_def tRB_def kRB_def fRB_def tR_def kR_def fR_def
    tE_def kE_def fE_def kP_def fP_def
  have s1: "exec (InsertUsers U) emptyDb = (if kU then Inr d1 else Inl (UniqueViolation Users))"
    by (simp add: insertUsers_def emptyDb_def d1_def kU_def)
  have s2: "exec (InsertTasks T) d1 =
      (if \<not> kT then Inl (UniqueViolation Tasks) else if \<not> fT then Inl (ForeignKeyViolation Tasks)
       else Inr d2)"
    by (simp add: insertTasks_def emptyDb_def d1_def d2_def kT_def fT_def)
  have s3: "exec (InsertExpenseTypes ET) d2 =
      (if \<not> kET then Inl (UniqueViolation ExpenseTypes)
       else if \<not> fET then Inl (ForeignKeyViolation ExpenseTypes) else Inr d3)"
    by (simp add: insertExpenseTypes_def emptyDb_def d1_def d2_def d3_def kET_def fET_def)
  have s4: "exec (InsertReceiptBooks RB) d3 =
      (if \<not> tRB then Inl (OutOfRange ReceiptBooks)
       else if \<not> kRB then Inl (UniqueViolation ReceiptBooks)
       else if \<not> fRB then Inl (ForeignKeyViolation ReceiptBooks) else Inr d4)"
    by (simp add: insertReceiptBooks_def emptyDb_def d1_def d2_def d3_def d4_def tRB_def kRB_def
        fRB_def)
  have s5: "exec (InsertReceipts R) d4 =
      (if \<not> tR then Inl (OutOfRange Receipts)
       else if \<not> kR then Inl (UniqueViolation Receipts)
       else if \<not> fR then Inl (ForeignKeyViolation Receipts) else Inr d5)"
    by (simp add: insertReceipts_def emptyDb_def d1_def d2_def d3_def d4_def d5_def tR_def kR_def
        fR_def)
  have s6: "exec (InsertExpenses E) d5 =
      (if \<not> tE then Inl (OutOfRange Expenses)
       else if \<not> kE then Inl (UniqueViolation Expenses)
       else if \<not> fE then Inl (ForeignKeyViolation Expenses) else Inr d6)"
    by (simp add: insertExpenses_def emptyDb_def d1_def d2_def d3_def d4_def d5_def d6_def
        tE_def kE_def fE_def)
  have s7: "exec (InsertPublishedReports P) d6 =
      (if \<not> kP then Inl (UniqueViolation PublishedReports)
       else if \<not> fP then Inl (ForeignKeyViolation PublishedReports) else Inr d7)"
    by (simp add: insertPublishedReports_def emptyDb_def d1_def d2_def d3_def d4_def d5_def
        d6_def d7_def kP_def fP_def)
  have unfold: "insertAll b = [InsertUsers U, InsertTasks T, InsertExpenseTypes ET,
      InsertReceiptBooks RB, InsertReceipts R, InsertExpenses E, InsertPublishedReports P]"
    by (simp add: insertAll_def rows)
  have main: "result (run (insertAll b) emptyDb) =
     (if \<not> kU then (Some (UniqueViolation Users), emptyDb)
      else if \<not> kT then (Some (UniqueViolation Tasks), d1)
      else if \<not> fT then (Some (ForeignKeyViolation Tasks), d1)
      else if \<not> kET then (Some (UniqueViolation ExpenseTypes), d2)
      else if \<not> fET then (Some (ForeignKeyViolation ExpenseTypes), d2)
      else if \<not> tRB then (Some (OutOfRange ReceiptBooks), d3)
      else if \<not> kRB then (Some (UniqueViolation ReceiptBooks), d3)
      else if \<not> fRB then (Some (ForeignKeyViolation ReceiptBooks), d3)
      else if \<not> tR then (Some (OutOfRange Receipts), d4)
      else if \<not> kR then (Some (UniqueViolation Receipts), d4)
      else if \<not> fR then (Some (ForeignKeyViolation Receipts), d4)
      else if \<not> tE then (Some (OutOfRange Expenses), d5)
      else if \<not> kE then (Some (UniqueViolation Expenses), d5)
      else if \<not> fE then (Some (ForeignKeyViolation Expenses), d5)
      else if \<not> kP then (Some (UniqueViolation PublishedReports), d6)
      else if \<not> fP then (Some (ForeignKeyViolation PublishedReports), d6)
      else (None, d7))"
    unfolding unfold
    by (simp only: result_run_Cons_if1 [OF s1] result_run_Cons_if2 [OF s2]
        result_run_Cons_if2 [OF s3] result_run_Cons_if3 [OF s4] result_run_Cons_if3 [OF s5]
        result_run_Cons_if3 [OF s6] result_run_Cons_if2 [OF s7] result_run_Nil)
  have final: "d7 = dbOf b"
    by (simp add: dbOf_def states rows)
  have ok: "db_ok (dbOf b) \<longleftrightarrow>
      kU \<and> kT \<and> fT \<and> kET \<and> fET \<and> tRB \<and> kRB \<and> fRB \<and> tR \<and> kR \<and> fR \<and> tE \<and> kE \<and> fE \<and> kP \<and> fP"
    unfolding db_ok_def types_ok_def keys_ok_def refs_ok_def dbOf_def conds rows
    by (simp only: db.simps) blast
  have partly: "partlyRestored b emptyDb" "partlyRestored b d1" "partlyRestored b d2"
      "partlyRestored b d3" "partlyRestored b d4" "partlyRestored b d5" "partlyRestored b d6"
      "partlyRestored b d7"
    by (simp_all add: partlyRestored_def states rows)
  show "fst (result (run (insertAll b) emptyDb)) = None \<longleftrightarrow> db_ok (dbOf b)"
    unfolding main ok by simp
  show "result (run (insertAll b) emptyDb) = (None, dbOf b)" if "db_ok (dbOf b)"
    using that unfolding main ok final by simp
  show "partlyRestored b (snd (result (run (insertAll b) emptyDb)))"
    unfolding main using partly by simp
qed

text \<open>
  The outcome of a restore, for every order in which the store may execute the
  deletes of a group: either \<open>delete users\<close> is refused and the inserts are never
  reached, or the inserts run on the empty store.
\<close>

lemma restoreFromBackup_result:
  assumes "permuting sched"
  shows "result (restoreFromBackup sched b d) =
           (if usersDeleteRefused sched d
            then (Some (ForeignKeyViolation Users), emptyDb\<lparr>users := users d\<rparr>)
            else result (run (insertAll b) emptyDb))"
proof -
  have c: "(thrown (clearExistingData sched d), store (clearExistingData sched d)) =
           (if usersDeleteRefused sched d
            then (Some (ForeignKeyViolation Users), emptyDb\<lparr>users := users d\<rparr>)
            else (None, emptyDb))"
    using clearExistingData_result [OF assms, of d] by (simp add: result_def)
  show ?thesis
  proof (cases "usersDeleteRefused sched d")
    case True
    then show ?thesis
      using c by (simp add: restoreFromBackup_def result_andThen) (simp add: result_def)
  next
    case False
    then show ?thesis
      using c by (simp add: restoreFromBackup_def result_andThen result_run_inserts)
  qed
qed

text \<open>The statements a restore executes: deletes, then the guarded inserts in program order.\<close>

lemma is_insert_ifRows:
  "(\<And>rows. is_insert (ins rows)) \<Longrightarrow> list_all is_insert (ifRows ins c)"
  by (cases "(ins, c)" rule: ifRows.cases) simp_all

lemma is_insert_insertStatements: "list_all is_insert (insertStatements b)"
  by (simp add: insertStatements_def is_insert_ifRows)

lemma executed_run_inserts:
  "filter is_insert (executed (run (insertStatements b) d)) = executed (run (insertStatements b) d)"
proof -
  have "set (executed (run (insertStatements b) d)) \<subseteq> set (insertStatements b)"
    using executed_run_prefix by (rule set_mono_prefix)
  then show ?thesis
    using is_insert_insertStatements [of b]
    by (intro filter_True) (auto simp add: list_all_iff)
qed

lemma restoreFromBackup_inserts:
  assumes "permuting sched"
  shows "filter is_insert (executed (restoreFromBackup sched b d)) =
           (if usersDeleteRefused sched d then []
            else executed (run (insertStatements b) emptyDb))"
proof -
  have c: "thrown (clearExistingData sched d)
             = (if usersDeleteRefused sched d then Some (ForeignKeyViolation Users) else None)"
    "\<not> usersDeleteRefused sched d \<Longrightarrow> store (clearExistingData sched d) = emptyDb"
    using clearExistingData_result [OF assms, of d] by (simp_all add: result_def split: if_splits)
  show ?thesis
    unfolding restoreFromBackup_def executed_andThen filter_append
      clearExistingData_deletes [OF assms]
    using c by (simp add: executed_run_inserts)
qed

lemma ifRows_order:
  assumes "\<And>rows. stmt_table (ins rows) = t"
  shows "map stmt_table (ifRows ins c) = (if rows_of c = [] then [] else [t])"
proof (cases c)
  case None
  then show ?thesis by (simp add: rows_of_def)
next
  case (Some rows)
  then show ?thesis using assms by (cases rows) (simp_all add: rows_of_def)
qed

lemma insertStatements_tables:
  "map stmt_table (insertStatements b) =
     filter (hasRows b)
       [Users, Tasks, ExpenseTypes, ReceiptBooks, Receipts, Expenses, PublishedReports]"
  by (simp add: insertStatements_def ifRows_order hasRows_def)

lemma insertOrder_prefix:
  assumes "permuting sched"
  shows "prefix (insertOrder sched b d)
           (filter (hasRows b)
              [Users, Tasks, ExpenseTypes, ReceiptBooks, Receipts, Expenses, PublishedReports])"
  unfolding insertOrder_def restoreFromBackup_inserts [OF assms]
    insertStatements_tables [symmetric]
  by (simp add: map_mono_prefix executed_run_prefix)

lemma restore_succeeds_iff:
  assumes "permuting sched"
  shows "thrown (restoreFromBackup sched b d) = None
           \<longleftrightarrow> \<not> usersDeleteRefused sched d \<and> db_ok (dbOf b)"
  using restoreFromBackup_result [OF assms, of b d] run_insertAll_success [of b]
  by (auto simp add: result_def split: if_splits)

lemma restore_state:
  assumes "permuting sched" and "\<not> usersDeleteRefused sched d" and "db_ok (dbOf b)"
  shows "result (restoreFromBackup sched b d) = (None, dbOf b)"
  using restoreFromBackup_result [OF assms(1), of b d] run_insertAll_state [OF assms(3)] assms(2)
  by simp

lemma restore_all_inserts:
  assumes "permuting sched" and "thrown (restoreFromBackup sched b d) = None"
  shows "filter is_insert (executed (restoreFromBackup sched b d)) = insertStatements b"
proof -
  have ok: "\<not> usersDeleteRefused sched d" "db_ok (dbOf b)"
    using restore_succeeds_iff [OF assms(1), of b d] assms(2) by simp_all
  have "result (run (insertStatements b) emptyDb) = (None, dbOf b)"
    using run_insertAll_state [OF ok(2)] by (simp add: result_run_inserts)
  then have "thrown (run (insertStatements b) emptyDb) = None"
    by (simp add: result_def)
  then show ?thesis
    using ok(1) by (simp add: restoreFromBackup_inserts [OF assms(1)] executed_run_all)
qed

section \<open>Restore: dangling references\<close>

lemma permuting_inArrayOrder: "permuting inArrayOrder"
  by (simp add: permuting_def inArrayOrder_def)

lemma permuting_inReverseOrder: "permuting inReverseOrder"
  by (simp add: permuting_def inReverseOrder_def)

lemma not_refused_inArrayOrder: "\<not> usersDeleteRefused inArrayOrder d"
  by (simp add: usersDeleteRefused_def inArrayOrder_def)

lemma refused_inReverseOrder:
  "usersDeleteRefused inReverseOrder d
     \<longleftrightarrow> referenced (map u_id (users d)) (map t_createdBy (tasks d))"
  by (simp add: usersDeleteRefused_def inReverseOrder_def)

text \<open>
  C6 (amended). \<open>restoreFromBackup\<close> validates nothing beforehand and runs in no
  transaction. For a snapshot with a foreign key that does not resolve within the
  snapshot, and for every order in which the store may execute the deletes that are
  issued together, the restore throws, and it throws only after deleting: the tables
  of tasks, expense types, receipt books, receipts, expenses and published reports
  are each left either empty or holding exactly the rows of the snapshot's collection,
  and the table of users is left empty, with the snapshot's users, or with its prior
  rows.
\<close>

theorem restore_dangling_reference:
  assumes "permuting sched" and "\<not> snapshot_refs_ok b"
  shows "thrown (restoreFromBackup sched b d) \<noteq> None
         \<and> replacedButUsers b (store (restoreFromBackup sched b d))
         \<and> users (store (restoreFromBackup sched b d)) \<in> {[], rows_of (b_users b), users d}"
proof (cases "usersDeleteRefused sched d")
  case True
  then have "result (restoreFromBackup sched b d)
               = (Some (ForeignKeyViolation Users), emptyDb\<lparr>users := users d\<rparr>)"
    by (simp add: restoreFromBackup_result [OF assms(1)])
  then have "thrown (restoreFromBackup sched b d) = Some (ForeignKeyViolation Users)"
    and "store (restoreFromBackup sched b d) = emptyDb\<lparr>users := users d\<rparr>"
    by (simp_all add: result_def)
  then show ?thesis
    by (simp add: replacedButUsers_def emptyDb_def)
next
  case False
  have bad: "\<not> db_ok (dbOf b)"
    using assms(2) by (simp add: snapshot_refs_ok_def db_ok_def)
  have r: "result (restoreFromBackup sched b d) = result (run (insertAll b) emptyDb)"
    using False by (simp add: restoreFromBackup_result [OF assms(1)])
  have "thrown (restoreFromBackup sched b d) \<noteq> None"
    using run_insertAll_success [of b] bad unfolding r [symmetric] by (simp add: result_def)
  moreover have "partlyRestored b (store (restoreFromBackup sched b d))"
    using run_insertAll_partly [of b] unfolding r [symmetric] by (simp add: result_def)
  ultimately show ?thesis
    unfolding partlyRestored_def replacedButUsers_def by blast
qed

lemma dangling_not_ok: "\<not> snapshot_refs_ok danglingBackup"
  by (simp add: snapshot_refs_ok_def refs_ok_def dbOf_def danglingBackup_def rows_of_def
      refs_in_def exReceipt_def)

text \<open>
  The snapshot whose receipt names a book that the snapshot does not contain, with the
  deletes executed in the order of the arrays.
\<close>

theorem restore_dangling_reference_witness:
  "permuting inArrayOrder
   \<and> \<not> snapshot_refs_ok danglingBackup
   \<and> thrown (restoreFromBackup inArrayOrder danglingBackup db13) \<noteq> None
   \<and> replacedButUsers danglingBackup (store (restoreFromBackup inArrayOrder danglingBackup db13))"
  using restore_dangling_reference [OF permuting_inArrayOrder dangling_not_ok, of db13]
    dangling_not_ok permuting_inArrayOrder
  by simp

lemma run_insertAll_dangling:
  "result (run (insertAll danglingBackup) emptyDb)
     = (Some (ForeignKeyViolation Receipts), exDb [] [])"
  by (simp add: result_run_Cons result_run_Nil insertAll_def danglingBackup_def rows_of_def
      emptyDb_def exDb_def insertUsers_def insertTasks_def insertExpenseTypes_def
      insertReceiptBooks_def insertReceipts_def refs_in_def exUser_def exTask_def exReceipt_def
      int4_def decimal10_2_def
      del: run.simps)

lemma db13_refused: "referenced (map u_id (users db13)) (map t_createdBy (tasks db13))"
  by (simp add: referenced_def db13_def exDb_def exUser_def exTask_def)

text \<open>
  C6 as stated fails: restoring that snapshot over a store with one book and two
  receipts throws a foreign-key violation and leaves the store without any receipt
  book or receipt, whichever of \<open>delete tasks\<close> and \<open>delete users\<close> the store executes
  first; the prior dataset is gone.
\<close>

theorem restore_dangling_counterexample:
  "db_ok db13
   \<and> \<not> snapshot_refs_ok danglingBackup
   \<and> receiptBooks db13 = [exBook ''b1'' ''RB-1'']
   \<and> receipts db13 = [exReceipt ''r1'' ''b1'' 1 10000, exReceipt ''r3'' ''b1'' 3 25050]
   \<and> result (restoreFromBackup inArrayOrder danglingBackup db13)
       = (Some (ForeignKeyViolation Receipts), exDb [] [])
   \<and> result (restoreFromBackup inReverseOrder danglingBackup db13)
       = (Some (ForeignKeyViolation Users), (exDb [] [])\<lparr>tasks := []\<rparr>)"
proof -
  have a: "result (restoreFromBackup inArrayOrder danglingBackup db13)
       = (Some (ForeignKeyViolation Receipts), exDb [] [])"
    by (simp add: restoreFromBackup_result [OF permuting_inArrayOrder] not_refused_inArrayOrder
        run_insertAll_dangling)
  have b: "result (restoreFromBackup inReverseOrder danglingBackup db13)
       = (Some (ForeignKeyViolation Users), (exDb [] [])\<lparr>tasks := []\<rparr>)"
    using db13_refused
    by (simp add: restoreFromBackup_result [OF permuting_inReverseOrder] refused_inReverseOrder)
      (simp add: emptyDb_def exDb_def db13_def)
  show ?thesis
    using a b dangling_not_ok db13_ok by (simp add: exDb_def db13_def)
qed

section \<open>Restore: absent collections\<close>

text \<open>
  When no delete is refused, a table whose collection is absent or empty in the
  snapshot holds no row after the restore and nothing is inserted into it; the tables
  other than \<open>users\<close> are so in every case.
\<close>

lemma restore_partly:
  assumes "permuting sched"
  shows "replacedButUsers b (store (restoreFromBackup sched b d))"
    and "\<not> usersDeleteRefused sched d \<Longrightarrow> partlyRestored b (store (restoreFromBackup sched b d))"
proof -
  have r: "store (restoreFromBackup sched b d) =
      (if usersDeleteRefused sched d then emptyDb\<lparr>users := users d\<rparr>
       else snd (result (run (insertAll b) emptyDb)))"
    using restoreFromBackup_result [OF assms, of b d] by (simp add: result_def split: if_splits)
  show "replacedButUsers b (store (restoreFromBackup sched b d))"
    using run_insertAll_partly [of b] unfolding r
    by (simp add: partlyRestored_def replacedButUsers_def emptyDb_def)
  show "partlyRestored b (store (restoreFromBackup sched b d))" if "\<not> usersDeleteRefused sched d"
    using run_insertAll_partly [of b] that unfolding r by simp
qed

lemma restore_absent_collections:
  assumes "permuting sched" and "\<not> hasRows b t"
  shows "t \<notin> set (insertOrder sched b d)"
    and "t \<noteq> Users \<or> \<not> usersDeleteRefused sched d
         \<Longrightarrow> tableEmpty (store (restoreFromBackup sched b d)) t"
proof -
  have "set (insertOrder sched b d) \<subseteq> set (filter (hasRows b)
      [Users, Tasks, ExpenseTypes, ReceiptBooks, Receipts, Expenses, PublishedReports])"
    using insertOrder_prefix [OF assms(1)] by (rule set_mono_prefix)
  then show "t \<notin> set (insertOrder sched b d)"
    using assms(2) unfolding set_filter by blast
  show "tableEmpty (store (restoreFromBackup sched b d)) t"
    if "t \<noteq> Users \<or> \<not> usersDeleteRefused sched d"
  proof (cases "t = Users")
    case True
    then show ?thesis
      using that assms(2) restore_partly(2) [OF assms(1), of d b]
      by (auto simp add: tableEmpty_def hasRows_def partlyRestored_def)
  next
    case False
    then show ?thesis
      using assms(2) restore_partly(1) [OF assms(1), of b d]
      by (cases t) (auto simp add: tableEmpty_def hasRows_def replacedButUsers_def)
  qed
qed

text \<open>
  C10. Restoring the empty object \<open>{}\<close> over the store with one user, one task, one
  receipt book and two receipts: when the store executes \<open>delete users\<close> before
  \<open>delete tasks\<close>, the two being issued together, the delete of users is refused
  because the task still names the user; \<open>restoreFromBackup\<close> throws and the table of
  users keeps its row, although the snapshot has no collection of users. When it
  executes them in the order of the array, the restore succeeds and every table is
  empty.
\<close>

theorem restore_empty_object_keeps_users:
  "db_ok db13
   \<and> permuting inReverseOrder
   \<and> \<not> hasRows emptyBackup Users
   \<and> result (restoreFromBackup inReverseOrder emptyBackup db13)
       = (Some (ForeignKeyViolation Users), emptyDb\<lparr>users := [exUser]\<rparr>)
   \<and> \<not> tableEmpty (store (restoreFromBackup inReverseOrder emptyBackup db13)) Users
   \<and> result (restoreFromBackup inArrayOrder emptyBackup db13) = (None, emptyDb)"
proof -
  have a: "result (restoreFromBackup inReverseOrder emptyBackup db13)
       = (Some (ForeignKeyViolation Users), emptyDb\<lparr>users := [exUser]\<rparr>)"
    using db13_refused
    by (simp add: restoreFromBackup_result [OF permuting_inReverseOrder] refused_inReverseOrder)
      (simp add: db13_def exDb_def)
  then have s: "store (restoreFromBackup inReverseOrder emptyBackup db13)
       = emptyDb\<lparr>users := [exUser]\<rparr>"
    by (simp add: result_def)
  have e: "dbOf emptyBackup = emptyDb"
    by (simp add: dbOf_def emptyBackup_def rows_of_def emptyDb_def)
  have b: "result (restoreFromBackup inArrayOrder emptyBackup db13) = (None, emptyDb)"
    using restore_state [OF permuting_inArrayOrder not_refused_inArrayOrder, of emptyBackup db13]
      emptyDb_ok
    by (simp add: e)
  have h: "\<not> hasRows emptyBackup Users"
    by (simp add: hasRows_def emptyBackup_def rows_of_def)
  show ?thesis
    using a b h db13_ok permuting_inReverseOrder unfolding s
    by (simp add: tableEmpty_def)
qed

section \<open>Restore: insertion order\<close>

lemma sorted_wrt_prefix: "prefix xs ys \<Longrightarrow> sorted_wrt P ys \<Longrightarrow> sorted_wrt P xs"
  by (auto simp add: prefix_def sorted_wrt_append)

lemma distinct_prefix: "prefix xs ys \<Longrightarrow> distinct ys \<Longrightarrow> distinct xs"
  by (auto simp add: prefix_def)

text \<open>
  C8. For every order in which the store may execute the deletes that are issued
  together: the inserts that \<open>restoreFromBackup\<close> has the store execute come after the
  deletes and are the inserts of the snapshot's collections that have rows, in the
  order users, tasks, expense types, receipt books, receipts, expenses, published
  reports, up to the first one the store refuses; all of them when the restore does
  not throw (all seven, in this order, when every collection has rows), and the store
  then holds the rows of the snapshot. Each table is inserted into at most once, and
  no table is inserted into before a table it references. For a snapshot that
  satisfies the constraints of the schema no insert is refused: once the deletes have
  gone through, the restore does not throw.
\<close>

theorem restore_insert_order:
  assumes "permuting sched"
  shows "prefix (filter is_insert (executed (restoreFromBackup sched b d))) (insertStatements b)
   \<and> prefix (insertOrder sched b d)
        (filter (hasRows b)
           [Users, Tasks, ExpenseTypes, ReceiptBooks, Receipts, Expenses, PublishedReports])
   \<and> (thrown (restoreFromBackup sched b d) = None \<longrightarrow>
        filter is_insert (executed (restoreFromBackup sched b d)) = insertStatements b
        \<and> insertOrder sched b d =
            filter (hasRows b)
              [Users, Tasks, ExpenseTypes, ReceiptBooks, Receipts, Expenses, PublishedReports]
        \<and> store (restoreFromBackup sched b d) = dbOf b)
   \<and> (thrown (restoreFromBackup sched b d) = None \<and> (\<forall>t. hasRows b t) \<longrightarrow>
        insertOrder sched b d =
          [Users, Tasks, ExpenseTypes, ReceiptBooks, Receipts, Expenses, PublishedReports])
   \<and> sorted_wrt (\<lambda>earlier later. later \<notin> set (references earlier)) (insertOrder sched b d)
   \<and> distinct (insertOrder sched b d)
   \<and> (db_ok (dbOf b) \<and> thrown (clearExistingData sched d) = None \<longrightarrow>
        thrown (restoreFromBackup sched b d) = None)"
proof -
  let ?all = "[Users, Tasks, ExpenseTypes, ReceiptBooks, Receipts, Expenses, PublishedReports]"
  let ?r = "restoreFromBackup sched b d"
  have p0: "prefix (filter is_insert (executed ?r)) (insertStatements b)"
    by (simp add: restoreFromBackup_inserts [OF assms] executed_run_prefix)
  have p1: "prefix (insertOrder sched b d) (filter (hasRows b) ?all)"
    by (rule insertOrder_prefix [OF assms])
  have all: "filter is_insert (executed ?r) = insertStatements b" if "thrown ?r = None"
    using that by (rule restore_all_inserts [OF assms])
  have ord: "insertOrder sched b d = filter (hasRows b) ?all" if "thrown ?r = None"
    using all [OF that] by (simp only: insertOrder_def insertStatements_tables)
  have st: "store ?r = dbOf b" if "thrown ?r = None"
  proof -
    have "\<not> usersDeleteRefused sched d" "db_ok (dbOf b)"
      using restore_succeeds_iff [OF assms, of b d] that by simp_all
    then show ?thesis
      using restore_state [OF assms, of d b] by (simp add: result_def)
  qed
  have full: "insertOrder sched b d = ?all" if "thrown ?r = None" "\<forall>t. hasRows b t"
    using ord [OF that(1)] that(2) by simp
  have canon: "sorted_wrt (\<lambda>earlier later. later \<notin> set (references earlier)) ?all"
    by simp
  have srt: "sorted_wrt (\<lambda>earlier later. later \<notin> set (references earlier)) (insertOrder sched b d)"
    using p1 sorted_wrt_filter [OF canon, of "hasRows b"] by (rule sorted_wrt_prefix)
  have "distinct ?all"
    by simp
  then have "distinct (filter (hasRows b) ?all)"
    by (rule distinct_filter)
  with p1 have dst: "distinct (insertOrder sched b d)"
    by (rule distinct_prefix)
  have c: "thrown (clearExistingData sched d) = None \<longleftrightarrow> \<not> usersDeleteRefused sched d"
    using clearExistingData_result [OF assms, of d] by (simp add: result_def split: if_splits)
  have ok: "thrown ?r = None" if "db_ok (dbOf b)" "thrown (clearExistingData sched d) = None"
    using restore_succeeds_iff [OF assms, of b d] that c by simp
  show ?thesis
    using p0 p1 all ord st full srt dst ok by blast
qed

section \<open>Restore of an export\<close>

lemma distinct_map_sort_key [simp]:
  "distinct (map g (sort_key f xs)) = distinct (map g xs)"
proof -
  have "mset (map g (sort_key f xs)) = mset (map g xs)"
    by simp
  then show ?thesis
    by (rule mset_eq_imp_distinct_iff)
qed

lemma refs_in_sort_key [simp]:
  "refs_in fk (sort_key f xs) (map g (sort_key h ys)) = refs_in fk xs (map g ys)"
  by (simp add: refs_in_def list_all_iff)

lemma opt_refs_in_sort_key [simp]:
  "opt_refs_in fk (sort_key f xs) (map g (sort_key h ys)) = opt_refs_in fk xs (map g ys)"
  by (simp add: opt_refs_in_def list_all_iff cong: option.case_cong)

lemma sort_key_twice [simp]: "sort_key f (sort_key f xs) = sort_key f xs"
  by (rule sort_key_id_if_sorted) simp

lemma list_all_sort_key [simp]: "list_all P (sort_key f xs) = list_all P xs"
  by (simp add: list_all_iff)

lemma dbOf_export:
  "dbOf (getAllDataForBackup d) =
     \<lparr>users = getAllUsers d, tasks = getTasks d, receiptBooks = getReceiptBooks d,
      receipts = getReceipts d, expenses = getExpenses d, expenseTypes = getExpenseTypes d,
      publishedReports = getPublishedReports d\<rparr>"
  by (simp add: dbOf_def getAllDataForBackup_def rows_of_def)

lemmas export_defs = getAllUsers_def getTasks_def getReceiptBooks_def getReceipts_def
  getExpenses_def getExpenseTypes_def getPublishedReports_def

lemma db_ok_export: "db_ok (dbOf (getAllDataForBackup d)) = db_ok d"
  by (simp add: dbOf_export db_ok_def types_ok_def keys_ok_def refs_ok_def export_defs)

lemma export_twice: "getAllDataForBackup (dbOf (getAllDataForBackup d)) = getAllDataForBackup d"
  by (simp add: dbOf_export) (simp add: getAllDataForBackup_def export_defs)

text \<open>
  For every state of the store that satisfies the constraints of the schema: when the
  store does not refuse the delete of users, restoring the export of that state
  succeeds, every table then holds the same rows as before (as a multiset), the export
  of the restored store is the export of the original one, and the constraints still
  hold.
\<close>

lemma restore_export_when_deleted:
  assumes "permuting sched" and "db_ok d" and "\<not> usersDeleteRefused sched d"
  shows "thrown (restoreFromBackup sched (getAllDataForBackup d) d) = None
    \<and> mset (users (store (restoreFromBackup sched (getAllDataForBackup d) d))) = mset (users d)
    \<and> mset (tasks (store (restoreFromBackup sched (getAllDataForBackup d) d))) = mset (tasks d)
    \<and> mset (receiptBooks (store (restoreFromBackup sched (getAllDataForBackup d) d)))
        = mset (receiptBooks d)
    \<and> mset (receipts (store (restoreFromBackup sched (getAllDataForBackup d) d)))
        = mset (receipts d)
    \<and> mset (expenses (store (restoreFromBackup sched (getAllDataForBackup d) d)))
        = mset (expenses d)
    \<and> mset (expenseTypes (store (restoreFromBackup sched (getAllDataForBackup d) d)))
        = mset (expenseTypes d)
    \<and> mset (publishedReports (store (restoreFromBackup sched (getAllDataForBackup d) d)))
        = mset (publishedReports d)
    \<and> getAllDataForBackup (store (restoreFromBackup sched (getAllDataForBackup d) d))
        = getAllDataForBackup d
    \<and> db_ok (store (restoreFromBackup sched (getAllDataForBackup d) d))"
proof -
  have ok: "db_ok (dbOf (getAllDataForBackup d))"
    using assms(2) by (simp add: db_ok_export)
  have "result (restoreFromBackup sched (getAllDataForBackup d) d)
          = (None, dbOf (getAllDataForBackup d))"
    by (rule restore_state [OF assms(1) assms(3) ok])
  then have res: "thrown (restoreFromBackup sched (getAllDataForBackup d) d) = None"
    "store (restoreFromBackup sched (getAllDataForBackup d) d) = dbOf (getAllDataForBackup d)"
    by (simp_all add: result_def)
  have tables: "mset (users (dbOf (getAllDataForBackup d))) = mset (users d)"
    "mset (tasks (dbOf (getAllDataForBackup d))) = mset (tasks d)"
    "mset (receiptBooks (dbOf (getAllDataForBackup d))) = mset (receiptBooks d)"
    "mset (receipts (dbOf (getAllDataForBackup d))) = mset (receipts d)"
    "mset (expenses (dbOf (getAllDataForBackup d))) = mset (expenses d)"
    "mset (expenseTypes (dbOf (getAllDataForBackup d))) = mset (expenseTypes d)"
    "mset (publishedReports (dbOf (getAllDataForBackup d))) = mset (publishedReports d)"
    by (simp_all add: dbOf_export export_defs)
  show ?thesis
    unfolding res using ok tables export_twice [of d] by simp
qed

lemma dbFull_hasRows: "hasRows (getAllDataForBackup dbFull) t"
  by (cases t)
    (simp_all add: hasRows_def getAllDataForBackup_def rows_of_def export_defs dbFull_def
      dbScenario_def exDb_def)

lemma dbFull_refused: "referenced (map u_id (users dbFull)) (map t_createdBy (tasks dbFull))"
  by (simp add: referenced_def dbFull_def dbScenario_def exDb_def exUser_def exTask_def)

text \<open>
  The export of the store with a row in every table, with the deletes executed in the
  order of the arrays.
\<close>

theorem restore_insert_order_witness:
  "permuting inArrayOrder
   \<and> db_ok (dbOf (getAllDataForBackup dbFull))
   \<and> thrown (clearExistingData inArrayOrder dbFull) = None
   \<and> (\<forall>t. hasRows (getAllDataForBackup dbFull) t)
   \<and> thrown (restoreFromBackup inArrayOrder (getAllDataForBackup dbFull) dbFull) = None
   \<and> insertOrder inArrayOrder (getAllDataForBackup dbFull) dbFull =
       [Users, Tasks, ExpenseTypes, ReceiptBooks, Receipts, Expenses, PublishedReports]"
proof -
  have ok: "db_ok (dbOf (getAllDataForBackup dbFull))"
    using dbFull_ok by (simp add: db_ok_export)
  have c: "thrown (clearExistingData inArrayOrder dbFull) = None"
    using clearExistingData_result [OF permuting_inArrayOrder, of dbFull]
    by (simp add: result_def not_refused_inArrayOrder)
  show ?thesis
    using restore_insert_order [OF permuting_inArrayOrder, of "getAllDataForBackup dbFull" dbFull]
      ok c dbFull_hasRows permuting_inArrayOrder
    by blast
qed

text \<open>
  C7. Restoring the export of the store with a row in every table: when the store
  executes \<open>delete users\<close> before \<open>delete tasks\<close>, the two being issued together, the
  delete of users is refused because the task still names the user;
  \<open>restoreFromBackup\<close> throws before any insert, the table of users keeps its row and
  the six other tables are left empty, so the export of the store is no longer the
  export it was. When it executes them in the order of the array, the restore
  succeeds and the export is the same as before.
\<close>

theorem restore_export_not_identity:
  "db_ok dbFull
   \<and> permuting inReverseOrder
   \<and> result (restoreFromBackup inReverseOrder (getAllDataForBackup dbFull) dbFull)
       = (Some (ForeignKeyViolation Users), emptyDb\<lparr>users := [exUser]\<rparr>)
   \<and> insertOrder inReverseOrder (getAllDataForBackup dbFull) dbFull = []
   \<and> tasks dbFull = [exTask]
   \<and> getAllDataForBackup (store (restoreFromBackup inReverseOrder (getAllDataForBackup dbFull) dbFull))
       \<noteq> getAllDataForBackup dbFull
   \<and> thrown (restoreFromBackup inArrayOrder (getAllDataForBackup dbFull) dbFull) = None
   \<and> getAllDataForBackup (store (restoreFromBackup inArrayOrder (getAllDataForBackup dbFull) dbFull))
       = getAllDataForBackup dbFull"
proof -
  let ?b = "getAllDataForBackup dbFull"
  have a: "result (restoreFromBackup inReverseOrder ?b dbFull)
       = (Some (ForeignKeyViolation Users), emptyDb\<lparr>users := [exUser]\<rparr>)"
    using dbFull_refused
    by (simp add: restoreFromBackup_result [OF permuting_inReverseOrder] refused_inReverseOrder)
      (simp add: dbFull_def dbScenario_def exDb_def)
  then have s: "store (restoreFromBackup inReverseOrder ?b dbFull) = emptyDb\<lparr>users := [exUser]\<rparr>"
    by (simp add: result_def)
  have o: "insertOrder inReverseOrder ?b dbFull = []"
    using dbFull_refused
    by (simp add: insertOrder_def restoreFromBackup_inserts [OF permuting_inReverseOrder]
        refused_inReverseOrder)
  have t: "tasks dbFull = [exTask]"
    by (simp add: dbFull_def dbScenario_def exDb_def)
  have "b_tasks (getAllDataForBackup (emptyDb\<lparr>users := [exUser]\<rparr>)) = Some []"
    by (simp add: getAllDataForBackup_def getTasks_def emptyDb_def)
  moreover have "b_tasks ?b = Some [exTask]"
    by (simp add: getAllDataForBackup_def getTasks_def t)
  ultimately have n: "getAllDataForBackup (emptyDb\<lparr>users := [exUser]\<rparr>) \<noteq> ?b"
    by auto
  have g: "thrown (restoreFromBackup inArrayOrder ?b dbFull) = None"
    "getAllDataForBackup (store (restoreFromBackup inArrayOrder ?b dbFull)) = ?b"
    using restore_export_when_deleted [OF permuting_inArrayOrder dbFull_ok not_refused_inArrayOrder]
    by simp_all
  show ?thesis
    using a o t n g dbFull_ok permuting_inReverseOrder unfolding s by simp
qed

section \<open>Published reports\<close>

lemma createPublishedReport_Inr:
  "createPublishedReport i newId now d = Inr (row, d') \<Longrightarrow>
     row = reportRow i newId now \<and> d' = d\<lparr>publishedReports := publishedReports d @ [row]\<rparr>"
  by (auto simp add: createPublishedReport_def insertPublishedReports_def
      split: sum.splits if_splits)

lemma createPublishedReport_ok:
  assumes "newId \<notin> set (map pr_id (publishedReports d))"
    and "ipr_publishedBy i \<in> set (map u_id (users d))"
  shows "createPublishedReport i newId now d =
           Inr (reportRow i newId now,
                d\<lparr>publishedReports := publishedReports d @ [reportRow i newId now]\<rparr>)"
  using assms
  by (simp add: createPublishedReport_def insertPublishedReports_def fresh_keys_def
      refs_in_def reportRow_def)

lemma publishReport_201:
  "fst (publishReport num sub stringify reqUser newId now d) = Status201 row \<Longrightarrow>
   snd (publishReport num sub stringify reqUser newId now d)
     = d\<lparr>publishedReports := publishedReports d @ [row]\<rparr>"
  by (auto simp add: publishReport_def Let_def split: sum.splits dest: createPublishedReport_Inr)

lemma publishReport_500:
  "fst (publishReport num sub stringify reqUser newId now d) = Status500 \<Longrightarrow>
   snd (publishReport num sub stringify reqUser newId now d) = d"
  by (auto simp add: publishReport_def Let_def split: sum.splits)

lemma publishReport_status:
  "fst (publishReport num sub stringify reqUser newId now d) = Status500
   \<or> (\<exists>row. fst (publishReport num sub stringify reqUser newId now d) = Status201 row)"
  by (auto simp add: publishReport_def Let_def split: sum.splits)

lemma latest_None: "getLatestPublishedReport d = None \<longleftrightarrow> publishedReports d = []"
proof -
  have "sort_key (\<lambda>p. - pr_publishedAt p) (publishedReports d) = [] \<longleftrightarrow> publishedReports d = []"
    by (metis length_sort length_0_conv)
  then show ?thesis
    by (cases "sort_key (\<lambda>p. - pr_publishedAt p) (publishedReports d)")
      (simp_all add: getLatestPublishedReport_def)
qed

lemma latest_Some:
  assumes "getLatestPublishedReport d = Some r"
  shows "r \<in> set (publishedReports d)"
    and "\<And>p. p \<in> set (publishedReports d) \<Longrightarrow> pr_publishedAt p \<le> pr_publishedAt r"
proof -
  let ?s = "sort_key (\<lambda>p. - pr_publishedAt p) (publishedReports d)"
  obtain rest where s: "?s = r # rest"
    using assms by (cases ?s) (simp_all add: getLatestPublishedReport_def)
  have mem: "set (r # rest) = set (publishedReports d)"
    using s by (metis set_sort)
  show "r \<in> set (publishedReports d)"
    using mem by auto
  have "sorted (map (\<lambda>p. - pr_publishedAt p) (r # rest))"
    using s by (metis sorted_sort_key)
  then have "\<forall>p \<in> set rest. - pr_publishedAt r \<le> - pr_publishedAt p"
    by simp
  then show "pr_publishedAt p \<le> pr_publishedAt r" if "p \<in> set (publishedReports d)" for p
    using that mem by auto
qed

lemma latest_after_append:
  assumes "publishedReports d' = xs @ [row]"
    and "\<forall>p \<in> set xs. pr_publishedAt p < pr_publishedAt row"
  shows "getLatestPublishedReport d' = Some row"
proof -
  have "getLatestPublishedReport d' \<noteq> None"
    using assms(1) by (simp add: latest_None)
  then obtain r where r: "getLatestPublishedReport d' = Some r"
    by auto
  have "r \<in> set (xs @ [row])" and "pr_publishedAt row \<le> pr_publishedAt r"
    using latest_Some [OF r] assms(1) by auto
  then have "r = row"
    using assms(2) by auto
  then show ?thesis using r by simp
qed

lemma getPublished_reports_only:
  "publishedReports d2 = publishedReports d \<Longrightarrow> getPublished parse d2 = getPublished parse d"
  by (simp add: getPublished_def getLatestPublishedReport_def)

lemma publishReport_then_read:
  assumes rt: "parse (stringify (financials num sub d)) = Some (financials num sub d)"
    and fresh: "newId \<notin> set (map pr_id (publishedReports d))"
    and user: "u_id reqUser \<in> set (map u_id (users d))"
    and later: "\<forall>p \<in> set (publishedReports d). pr_publishedAt p < now"
    and same: "publishedReports d2 = publishedReports (snd (publishReport num sub stringify reqUser newId now d))"
  shows "getPublished parse d2 = Status200 (financials num sub d, now)"
proof -
  let ?i = "\<lparr>ipr_reportData = stringify (financials num sub d), ipr_publishedBy = u_id reqUser\<rparr>"
  let ?row = "reportRow ?i newId now"
  have "createPublishedReport ?i newId now d =
      Inr (?row, d\<lparr>publishedReports := publishedReports d @ [?row]\<rparr>)"
    using fresh user by (intro createPublishedReport_ok) simp_all
  then have "snd (publishReport num sub stringify reqUser newId now d)
      = d\<lparr>publishedReports := publishedReports d @ [?row]\<rparr>"
    by (simp add: publishReport_def Let_def)
  then have tbl: "publishedReports d2 = publishedReports d @ [?row]"
    using same by simp
  have "getLatestPublishedReport d2 = Some ?row"
    using tbl later by (intro latest_after_append [of d2 "publishedReports d"]) (simp_all add: reportRow_def)
  then show ?thesis
    using rt by (simp add: getPublished_def reportRow_def)
qed

text \<open>
  C9. Publishing only appends: when \<open>createPublishedReport\<close> succeeds the store is the
  old one with the new row added at the end of the published reports, and it succeeds
  whenever the id is fresh and the publisher exists; \<open>POST /api/reports/publish\<close>
  answers 201 with exactly that effect, or 500 with the store unchanged. \<open>getLatestPublishedReport\<close> is undefined exactly when there is no report and
  otherwise a report with the greatest \<open>publishedAt\<close>. \<open>GET /api/reports/published\<close>
  answers 404 without a report and otherwise the parsed text of the latest report with
  its \<open>publishedAt\<close>; the answer depends on the published reports alone. So once the
  financials of a state have been published at a time later than every earlier
  report, the public read answers those numbers whatever the other tables hold later.
\<close>

theorem published_reports_append_only:
  "(createPublishedReport i newId now d = Inr (row, d') \<longrightarrow>
      row = reportRow i newId now
      \<and> d' = d\<lparr>publishedReports := publishedReports d @ [row]\<rparr>)
   \<and> (newId \<notin> set (map pr_id (publishedReports d))
        \<and> ipr_publishedBy i \<in> set (map u_id (users d)) \<longrightarrow>
      createPublishedReport i newId now d =
        Inr (reportRow i newId now,
             d\<lparr>publishedReports := publishedReports d @ [reportRow i newId now]\<rparr>))
   \<and> (fst (publishReport num sub stringify reqUser newId now d) = Status201 row \<longrightarrow>
        snd (publishReport num sub stringify reqUser newId now d)
          = d\<lparr>publishedReports := publishedReports d @ [row]\<rparr>)
   \<and> (fst (publishReport num sub stringify reqUser newId now d) = Status500 \<longrightarrow>
        snd (publishReport num sub stringify reqUser newId now d) = d)
   \<and> (getLatestPublishedReport d = None \<longleftrightarrow> publishedReports d = [])
   \<and> (getLatestPublishedReport d = Some r \<longrightarrow>
        r \<in> set (publishedReports d)
        \<and> (\<forall>p \<in> set (publishedReports d). pr_publishedAt p \<le> pr_publishedAt r))
   \<and> (getLatestPublishedReport d = None \<longrightarrow> getPublished parse d = Status404)
   \<and> (getLatestPublishedReport d = Some r \<and> parse (pr_reportData r) = Some x \<longrightarrow>
        getPublished parse d = Status200 (x, pr_publishedAt r))
   \<and> (publishedReports d2 = publishedReports d \<longrightarrow> getPublished parse d2 = getPublished parse d)
   \<and> (parse (stringify (financials num sub d)) = Some (financials num sub d)
        \<and> newId \<notin> set (map pr_id (publishedReports d))
        \<and> u_id reqUser \<in> set (map u_id (users d))
        \<and> (\<forall>p \<in> set (publishedReports d). pr_publishedAt p < now)
        \<and> publishedReports d3
            = publishedReports (snd (publishReport num sub stringify reqUser newId now d)) \<longrightarrow>
        getPublished parse d3 = Status200 (financials num sub d, now))"
proof (intro conjI impI ballI)
  assume "createPublishedReport i newId now d = Inr (row, d')"
  then show "row = reportRow i newId now"
    and "d' = d\<lparr>publishedReports := publishedReports d @ [row]\<rparr>"
    by (simp_all add: createPublishedReport_Inr)
next
  assume "newId \<notin> set (map pr_id (publishedReports d))
      \<and> ipr_publishedBy i \<in> set (map u_id (users d))"
  then show "createPublishedReport i newId now d =
      Inr (reportRow i newId now,
           d\<lparr>publishedReports := publishedReports d @ [reportRow i newId now]\<rparr>)"
    by (intro createPublishedReport_ok) simp_all
next
  assume "fst (publishReport num sub stringify reqUser newId now d) = Status201 row"
  then show "snd (publishReport num sub stringify reqUser newId now d)
      = d\<lparr>publishedReports := publishedReports d @ [row]\<rparr>"
    by (rule publishReport_201)
next
  assume "fst (publishReport num sub stringify reqUser newId now d) = Status500"
  then show "snd (publishReport num sub stringify reqUser newId now d) = d"
    by (rule publishReport_500)
next
  show "getLatestPublishedReport d = None \<longleftrightarrow> publishedReports d = []"
    by (rule latest_None)
next
  assume "getLatestPublishedReport d = Some r"
  then show "r \<in> set (publishedReports d)"
    by (rule latest_Some)
next
  fix p
  assume "getLatestPublishedReport d = Some r" and "p \<in> set (publishedReports d)"
  then show "pr_publishedAt p \<le> pr_publishedAt r"
    by (rule latest_Some)
next
  assume "getLatestPublishedReport d = None"
  then show "getPublished parse d = Status404"
    by (simp add: getPublished_def)
next
  assume "getLatestPublishedReport d = Some r \<and> parse (pr_reportData r) = Some x"
  then show "getPublished parse d = Status200 (x, pr_publishedAt r)"
    by (simp add: getPublished_def)
next
  assume "publishedReports d2 = publishedReports d"
  then show "getPublished parse d2 = getPublished parse d"
    by (rule getPublished_reports_only)
next
  assume a: "parse (stringify (financials num sub d)) = Some (financials num sub d)
      \<and> newId \<notin> set (map pr_id (publishedReports d))
      \<and> u_id reqUser \<in> set (map u_id (users d))
      \<and> (\<forall>p \<in> set (publishedReports d). pr_publishedAt p < now)
      \<and> publishedReports d3
          = publishedReports (snd (publishReport num sub stringify reqUser newId now d))"
  show "getPublished parse d3 = Status200 (financials num sub d, now)"
    by (rule publishReport_then_read [of parse stringify num sub d newId reqUser now d3])
      (use a in blast)+
qed


text \<open>
  A report published on \<open>dbFull\<close> (income 350.50) is still what the public read
  answers after every receipt has been deleted (live income 0); before that
  publication the public read answers the earlier report; a store without reports
  answers 404; and a publication the store refuses (unknown publisher) is answered
  500 and changes nothing.
\<close>

theorem published_reports_append_only_witness:
  "publishedReports dbPublished =
     [exReport ''p1'' ''{}'' 7, exReport ''p2'' ''snapshot'' 100]
   \<and> getLatestPublishedReport dbPublished = Some (exReport ''p2'' ''snapshot'' 100)
   \<and> getTotalIncome (\<lambda>x. x) dbFull = 35050
   \<and> getTotalIncome (\<lambda>x. x) dbLater = 0
   \<and> getPublished exParse dbLater = Status200 (financials (\<lambda>x. x) (\<lambda>x y. x - y) dbFull, 100)
   \<and> getPublished exParse dbFull = Status200 (exZeroSnapshot, 7)
   \<and> getPublished exParse (dbFull\<lparr>receipts := []\<rparr>) = Status200 (exZeroSnapshot, 7)
   \<and> getPublished exParse dbDeficit = Status404
   \<and> publishReport (\<lambda>x. x) (\<lambda>x y. x - y) exStringify exStranger ''p3'' 200 dbDeficit
       = (Status500, dbDeficit)"
proof -
  have reports: "publishedReports dbFull = [exReport ''p1'' ''{}'' 7]"
    by (simp add: dbFull_def)
  have usr: "map u_id (users dbFull) = [''u1'']"
    by (simp add: dbFull_def dbScenario_def exDb_def exUser_def)
  have fresh: "''p2'' \<notin> set (map pr_id (publishedReports dbFull))"
    by (simp add: reports exReport_def)
  have user: "u_id exUser \<in> set (map u_id (users dbFull))"
    by (simp add: usr exUser_def)
  have later: "\<forall>p \<in> set (publishedReports dbFull). pr_publishedAt p < 100"
    by (simp add: reports exReport_def)
  have rt: "exParse (exStringify (financials (\<lambda>x. x) (\<lambda>x y. x - y) dbFull))
      = Some (financials (\<lambda>x. x) (\<lambda>x y. x - y) dbFull)"
    by (simp add: exParse_def exStringify_def)
  have same: "publishedReports dbLater
      = publishedReports (snd (publishReport (\<lambda>x. x) (\<lambda>x y. x - y) exStringify exUser ''p2'' 100 dbFull))"
    by (simp add: dbLater_def dbPublished_def)
  have same2: "publishedReports (dbFull\<lparr>receipts := []\<rparr>) = publishedReports dbFull"
    by simp
  have latest0: "getLatestPublishedReport dbFull = Some (exReport ''p1'' ''{}'' 7)
      \<and> exParse (pr_reportData (exReport ''p1'' ''{}'' 7)) = Some exZeroSnapshot"
    by (simp add: getLatestPublishedReport_def reports exReport_def exParse_def)
  note inst = published_reports_append_only
    [where i = "\<lparr>ipr_reportData = ''snapshot'', ipr_publishedBy = ''u1''\<rparr>"
       and newId = "''p2''" and now = 100 and d = dbFull
       and row = "exReport ''p2'' ''snapshot'' 100" and d' = dbPublished
       and r = "exReport ''p1'' ''{}'' 7" and parse = exParse
       and x = exZeroSnapshot and ?d2.0 = "dbFull\<lparr>receipts := []\<rparr>"
       and stringify = exStringify and num = "\<lambda>x. x" and sub = "\<lambda>x y. x - y"
       and reqUser = exUser and ?d3.0 = dbLater]
  have read: "getPublished exParse dbLater
      = Status200 (financials (\<lambda>x. x) (\<lambda>x y. x - y) dbFull, 100)"
    using inst rt fresh user later same by blast
  have read0: "getPublished exParse dbFull
      = Status200 (exZeroSnapshot, pr_publishedAt (exReport ''p1'' ''{}'' 7))"
    using inst latest0 by blast
  have read1: "getPublished exParse (dbFull\<lparr>receipts := []\<rparr>) = getPublished exParse dbFull"
    using inst same2 by blast
  have created: "createPublishedReport \<lparr>ipr_reportData = ''snapshot'', ipr_publishedBy = ''u1''\<rparr>
        ''p2'' 100 dbFull =
      Inr (exReport ''p2'' ''snapshot'' 100,
           dbFull\<lparr>publishedReports := publishedReports dbFull @ [exReport ''p2'' ''snapshot'' 100]\<rparr>)"
  proof -
    have by_u1: "ipr_publishedBy \<lparr>ipr_reportData = ''snapshot'', ipr_publishedBy = ''u1''\<rparr>
        \<in> set (map u_id (users dbFull))"
      by (simp add: usr)
    have "createPublishedReport \<lparr>ipr_reportData = ''snapshot'', ipr_publishedBy = ''u1''\<rparr>
        ''p2'' 100 dbFull =
      Inr (reportRow \<lparr>ipr_reportData = ''snapshot'', ipr_publishedBy = ''u1''\<rparr> ''p2'' 100,
           dbFull\<lparr>publishedReports := publishedReports dbFull
             @ [reportRow \<lparr>ipr_reportData = ''snapshot'', ipr_publishedBy = ''u1''\<rparr> ''p2'' 100]\<rparr>)"
      using inst fresh by_u1 by blast
    then show ?thesis
      by (simp add: reportRow_def exReport_def)
  qed
  have status: "fst (publishReport (\<lambda>x. x) (\<lambda>x y. x - y) exStringify exUser ''p2'' 100 dbFull)
      = Status201 (exReport ''p2'' ''snapshot'' 100)"
    using created by (simp add: publishReport_def Let_def exStringify_def exUser_def)
  have pub: "dbPublished
      = dbFull\<lparr>publishedReports := publishedReports dbFull @ [exReport ''p2'' ''snapshot'' 100]\<rparr>"
    unfolding dbPublished_def using inst status by blast
  have tbl: "publishedReports dbPublished
      = [exReport ''p1'' ''{}'' 7, exReport ''p2'' ''snapshot'' 100]"
    by (simp add: pub reports)
  have latest: "getLatestPublishedReport dbPublished = Some (exReport ''p2'' ''snapshot'' 100)"
    by (simp add: getLatestPublishedReport_def tbl exReport_def)
  have inc: "getTotalIncome (\<lambda>x. x) dbFull = 35050"
    by (simp add: getTotalIncome_sum dbFull_def dbScenario_def exDb_def exReceipt_def)
  have inc': "getTotalIncome (\<lambda>x. x) dbLater = 0"
    by (simp add: getTotalIncome_sum dbLater_def)
  note inst2 = published_reports_append_only
    [where d = dbDeficit and parse = exParse and stringify = exStringify
       and num = "\<lambda>x. x" and sub = "\<lambda>x y. x - y" and reqUser = exStranger
       and newId = "''p3''" and now = 200]
  have none: "getLatestPublishedReport dbDeficit = None"
    by (simp add: getLatestPublishedReport_def dbDeficit_def exDb_def)
  have nf: "getPublished exParse dbDeficit = Status404"
    using inst2 none by blast
  have refused: "fst (publishReport (\<lambda>x. x) (\<lambda>x y. x - y) exStringify exStranger ''p3'' 200 dbDeficit)
      = Status500"
    by (simp add: publishReport_def Let_def createPublishedReport_def
        insertPublishedReports_def fresh_keys_def refs_in_def reportRow_def
        dbDeficit_def exDb_def exUser_def exStranger_def)
  have unchanged: "snd (publishReport (\<lambda>x. x) (\<lambda>x y. x - y) exStringify exStranger ''p3'' 200 dbDeficit)
      = dbDeficit"
    using inst2 refused by blast
  have whole: "publishReport (\<lambda>x. x) (\<lambda>x y. x - y) exStringify exStranger ''p3'' 200 dbDeficit
      = (Status500, dbDeficit)"
    using refused unchanged by (simp add: prod_eq_iff)
  show ?thesis
    using tbl latest inc inc' read read0 read1 nf whole by (simp add: exReport_def)
qed

end
